theory Spec2Isabelle
  imports Complex_Main "HOL-Library.Multiset" "HOL-Library.AList"
begin

section \<open>Strings, files and the file table\<close>

text \<open>
  A JavaScript string is modelled as a \<open>string\<close>; the characters that matter below are
  the ASCII letters and the separators \<open>.\<close> and \<open>/\<close>. A \<open>File\<close> is its name, its bytes and its MIME type.
  The file table \<open>{ [key: string]: File }\<close> is a plain object; it is modelled by the keys
  stored in it: a finite map from these keys to files.
\<close>

type_synonym bytes = string

record File =
  name :: string
  bytes :: bytes
  mime :: string

type_synonym files_map = "string \<rightharpoonup> File"

text \<open>\<open>s.split(sep)\<close> for a one-character separator: never the empty array.\<close>

fun js_split :: "char \<Rightarrow> string \<Rightarrow> string list" where
  "js_split sep [] = [[]]"
| "js_split sep (c # cs) =
     (if c = sep then [] # js_split sep cs
      else (case js_split sep cs of [] \<Rightarrow> [[c]] | s # ss \<Rightarrow> (c # s) # ss))"

text \<open>\<open>xs.pop()\<close>: the last element, \<open>undefined\<close> on the empty array.\<close>

definition js_pop :: "'a list \<Rightarrow> 'a option" where
  "js_pop xs = (if xs = [] then None else Some (last xs))"

definition toLowerCase_char :: "char \<Rightarrow> char" where
  "toLowerCase_char c =
     (case map_of (zip ''ABCDEFGHIJKLMNOPQRSTUVWXYZ'' ''abcdefghijklmnopqrstuvwxyz'') c of
        Some l \<Rightarrow> l
      | None \<Rightarrow> c)"

definition toLowerCase :: "string \<Rightarrow> string" where
  "toLowerCase s = map toLowerCase_char s"

text \<open>\<open>filename.split('.').pop()?.toLowerCase() || ''\<close>\<close>

definition extension :: "string \<Rightarrow> string" where
  "extension filename =
     (case js_pop (js_split CHR ''.'' filename) of
        None \<Rightarrow> []
      | Some seg \<Rightarrow> (let l = toLowerCase seg in if l = [] then [] else l))"

text \<open>The file name's final dot-segment, in the words of the specification.\<close>

definition final_dot_segment :: "string \<Rightarrow> string" where
  "final_dot_segment filename = rev (takeWhile (\<lambda>c. c \<noteq> CHR ''.'') (rev filename))"

text \<open>
  The names that every plain object inherits from \<open>Object.prototype\<close>.
\<close>

definition object_prototype_names :: "string list" where
  "object_prototype_names =
     [''constructor'', ''hasOwnProperty'', ''isPrototypeOf'', ''propertyIsEnumerable'',
      ''toLocaleString'', ''toString'', ''valueOf'', ''__defineGetter__'', ''__defineSetter__'',
      ''__lookupGetter__'', ''__lookupSetter__'', ''__proto__'']"

text \<open>
  The assignment \<open>map[key] = value\<close> on a plain object, \<open>value\<close> an object: it stores the
  value under the key, except for the key \<open>__proto__\<close>. That name is the accessor of
  \<open>Object.prototype\<close>: the assignment makes \<open>value\<close> the prototype of \<open>map\<close> and stores no
  key. The table of this model holds the keys stored in the object; the prototype that such
  an assignment installs, and what later reads and writes find on it, are not part of it.
\<close>

definition js_assign :: "string \<Rightarrow> 'v \<Rightarrow> (string \<rightharpoonup> 'v) \<Rightarrow> (string \<rightharpoonup> 'v)" where
  "js_assign key v m = (if key = ''__proto__'' then m else m(key \<mapsto> v))"

text \<open>\<open>createFilesMap\<close>: the loop \<open>for (const file of files) map[file.name] = file\<close>.\<close>

definition createFilesMap :: "File list \<Rightarrow> files_map" where
  "createFilesMap fs = fold (\<lambda>f m. js_assign (name f) f m) fs Map.empty"

section \<open>Recursive extraction of dropped entries\<close>

text \<open>
  \<open>getFilesFromItemList\<close> walks the dropped entries with callbacks. An entry is a directory
  (\<open>isDirectory\<close>, with the entries its reader lists), a file (\<open>isFile\<close>, with its
  \<open>fullPath\<close> and the \<open>File\<close> that \<open>entry.file\<close> delivers), or neither. \<open>readEntries\<close> and
  \<open>entry.file\<close> are taken to invoke their callback once, in a later turn of the event loop;
  the callbacks that are still to run are the \<open>pending\<close> tasks of the state. An item of
  kind \<open>file\<close> is taken to have an entry (\<open>webkitGetAsEntry\<close> does not return \<open>null\<close>).
\<close>

datatype entry = DirectoryEntry "entry list" | FileEntry string File | OtherEntry

datatype item = StringItem | FileItem entry

datatype task = ReadEntriesCallback "entry list" | FileCallback string File

record agg_state =
  itemsCount :: nat
  itemsTotal :: nat
  files :: "File list"
  filesMap :: files_map
  pending :: "task list"
  resolveCalls :: nat

definition init_state :: agg_state where
  "init_state = \<lparr>itemsCount = 0, itemsTotal = 0, files = [], filesMap = Map.empty,
     pending = [], resolveCalls = 0\<rparr>"

text \<open>
  \<open>resolve({ files, filesMap })\<close> hands out the array and the table themselves, which later
  callbacks still change; the state counts the calls. The promise is settled from the first
  call on.
\<close>

definition resolve :: "agg_state \<Rightarrow> agg_state" where
  "resolve st = st\<lparr>resolveCalls := resolveCalls st + 1\<rparr>"

definition onEntryHandled :: "agg_state \<Rightarrow> agg_state" where
  "onEntryHandled st =
     (let st' = st\<lparr>itemsCount := itemsCount st + 1\<rparr>
      in if itemsCount st' = itemsTotal st' then resolve st' else st')"

fun handleEntry :: "entry \<Rightarrow> agg_state \<Rightarrow> agg_state" where
  "handleEntry (DirectoryEntry es) st =
     st\<lparr>itemsTotal := itemsTotal st + 1, pending := pending st @ [ReadEntriesCallback es]\<rparr>"
| "handleEntry (FileEntry fullPath f) st =
     st\<lparr>itemsTotal := itemsTotal st + 1, pending := pending st @ [FileCallback fullPath f]\<rparr>"
| "handleEntry OtherEntry st = onEntryHandled (st\<lparr>itemsTotal := itemsTotal st + 1\<rparr>)"

text \<open>The two callbacks. \<open>entry.fullPath.slice(1)\<close> drops the first character.\<close>

fun runCallback :: "task \<Rightarrow> agg_state \<Rightarrow> agg_state" where
  "runCallback (ReadEntriesCallback es) st = onEntryHandled (fold handleEntry es st)"
| "runCallback (FileCallback fullPath f) st =
     onEntryHandled (st\<lparr>files := files st @ [f], filesMap := js_assign (drop 1 fullPath) f (filesMap st)\<rparr>)"

text \<open>The loop over the dropped items: only items of kind \<open>file\<close> are handled.\<close>

fun handleItem :: "item \<Rightarrow> agg_state \<Rightarrow> agg_state" where
  "handleItem StringItem st = st"
| "handleItem (FileItem e) st = handleEntry e st"

definition start :: "item list \<Rightarrow> agg_state" where
  "start items = fold handleItem items init_state"

text \<open>
  One turn of the event loop runs one pending callback; which one is the scheduler's
  choice. A schedule is the list of these choices, so that every interleaving of the
  callbacks is some schedule.
\<close>

definition turn :: "nat \<Rightarrow> agg_state \<Rightarrow> agg_state" where
  "turn choice st =
     (if pending st = [] then st
      else let i = choice mod length (pending st)
           in runCallback (pending st ! i)
                (st\<lparr>pending := take i (pending st) @ drop (Suc i) (pending st)\<rparr>))"

definition run :: "nat list \<Rightarrow> agg_state \<Rightarrow> agg_state" where
  "run sched st = fold turn sched st"

text \<open>
  Awaiting the promise: the caller resumes at the end of the turn in which \<open>resolve\<close> is
  first called (for a call made in the loop over the items, when that loop has ended), and
  finds the state as it is then. Within the turns of the schedule the result is \<open>None\<close> when
  the promise is still unsettled.
\<close>

fun await_settled :: "nat list \<Rightarrow> agg_state \<Rightarrow> agg_state option" where
  "await_settled [] st = (if 0 < resolveCalls st then Some st else None)"
| "await_settled (c # sched) st =
     (if 0 < resolveCalls st then Some st else await_settled sched (turn c st))"

text \<open>What \<open>await getFilesFromItemList(items)\<close> delivers: the files and the table at that point.\<close>

definition getFilesFromItemList :: "nat list \<Rightarrow> item list \<Rightarrow> (File list \<times> files_map) option" where
  "getFilesFromItemList sched items =
     map_option (\<lambda>st. (files st, filesMap st)) (await_settled sched (start items))"

text \<open>The callbacks an entry gives rise to, and the file entries below it.\<close>

fun entry_callbacks :: "entry \<Rightarrow> nat" where
  "entry_callbacks (DirectoryEntry es) = Suc (sum_list (map entry_callbacks es))"
| "entry_callbacks (FileEntry fullPath f) = 1"
| "entry_callbacks OtherEntry = 0"

fun entry_files :: "entry \<Rightarrow> (string \<times> File) list" where
  "entry_files (DirectoryEntry es) = concat (map entry_files es)"
| "entry_files (FileEntry fullPath f) = [(drop 1 fullPath, f)]"
| "entry_files OtherEntry = []"

fun item_entries :: "item list \<Rightarrow> entry list" where
  "item_entries [] = []"
| "item_entries (StringItem # its) = item_entries its"
| "item_entries (FileItem e # its) = e # item_entries its"

fun task_callbacks :: "task \<Rightarrow> nat" where
  "task_callbacks (ReadEntriesCallback es) = Suc (sum_list (map entry_callbacks es))"
| "task_callbacks (FileCallback fullPath f) = 1"

fun task_files :: "task \<Rightarrow> (string \<times> File) list" where
  "task_files (ReadEntriesCallback es) = concat (map entry_files es)"
| "task_files (FileCallback fullPath f) = [(drop 1 fullPath, f)]"


text \<open>Measures of a state of the traversal, used to state its properties.\<close>

definition slack :: "agg_state \<Rightarrow> int" where
  "slack st = int (itemsTotal st) - int (itemsCount st) - int (length (pending st))"

definition pending_callbacks :: "agg_state \<Rightarrow> nat" where
  "pending_callbacks st = sum_list (map task_callbacks (pending st))"

definition pending_files :: "agg_state \<Rightarrow> (string \<times> File) list" where
  "pending_files st = concat (map task_files (pending st))"

definition all_files :: "item list \<Rightarrow> (string \<times> File) list" where
  "all_files items = concat (map entry_files (item_entries items))"

text \<open>The registrations that store a key: all but those under \<open>__proto__\<close>.\<close>

definition stored :: "(string \<times> File) list \<Rightarrow> (string \<times> File) list" where
  "stored al = filter (\<lambda>(k, f). k \<noteq> ''__proto__'') al"

definition total_callbacks :: "item list \<Rightarrow> nat" where
  "total_callbacks items = sum_list (map entry_callbacks (item_entries items))"

text \<open>
  The first dropped entry is a file or a directory, so that a callback is pending when the
  loop over the items ends.
\<close>

definition starts_pending :: "item list \<Rightarrow> bool" where
  "starts_pending items = (case item_entries items of [] \<Rightarrow> False | e # _ \<Rightarrow> e \<noteq> OtherEntry)"

definition barrier_inv :: "(string \<times> File) list \<Rightarrow> agg_state \<Rightarrow> bool" where
  "barrier_inv all st \<longleftrightarrow>
     slack st = 0
     \<and> resolveCalls st = (if pending st = [] then 1 else 0)
     \<and> mset (files st) + mset (map snd (pending_files st)) = mset (map snd all)
     \<and> dom (filesMap st) \<union> fst ` set (stored (pending_files st)) = fst ` set (stored all)
     \<and> (\<forall>k f. filesMap st k = Some f \<longrightarrow> (k, f) \<in> set (stored all))
     \<and> set (pending_files st) \<subseteq> set all"


section \<open>Object URLs and the URL modifiers of the loading managers\<close>

text \<open>
  \<open>URL.createObjectURL\<close> belongs to the browser: it registers the blob under a URL it mints
  and returns that URL. The registry is an explicit store, newest entry first; the minting
  function is a parameter.
\<close>

record blob =
  blob_bytes :: bytes
  blob_type :: string

type_synonym url_store = "(string \<times> blob) list"

definition createObjectURL :: "(nat \<Rightarrow> string) \<Rightarrow> blob \<Rightarrow> url_store \<Rightarrow> string \<times> url_store" where
  "createObjectURL mint b store = (let u = mint (length store) in (u, (u, b) # store))"

definition read_url :: "url_store \<Rightarrow> string \<Rightarrow> blob option" where
  "read_url store u = map_of store u"

definition file_blob :: "File \<Rightarrow> blob" where
  "file_blob f = \<lparr>blob_bytes = bytes f, blob_type = mime f\<rparr>"

text \<open>\<open>url.replace(/^(\.?\/)/, '')\<close>: one leading \<open>./\<close> or \<open>/\<close> is removed.\<close>

definition strip_leading :: "string \<Rightarrow> string" where
  "strip_leading url =
     (if take 2 url = ''./'' then drop 2 url
      else if take 1 url = ''/'' then drop 1 url
      else url)"

text \<open>
  The URL modifier that \<open>loadModel\<close> installs over the dropped files, for references that
  find a stored key or nothing. (A reference that names a property inherited from
  \<open>Object.prototype\<close> finds that property, and \<open>URL.createObjectURL\<close> throws on it; this
  definition has no such outcome.)
\<close>

definition outerURLModifier ::
    "(nat \<Rightarrow> string) \<Rightarrow> files_map \<Rightarrow> string \<Rightarrow> url_store \<Rightarrow> string \<times> url_store" where
  "outerURLModifier mint fm url store =
     (case fm (strip_leading url) of
        Some f \<Rightarrow> createObjectURL mint (file_blob f) store
      | None \<Rightarrow> (url, store))"

text \<open>
  What \<open>unzipSync\<close> returns: the entries of the archive, path and data, in the order in which
  \<open>for (const path in zip)\<close> enumerates them. The data is a \<open>Uint8Array\<close> that spans its
  \<open>buffer\<close>. The object is a plain one: its prototype is \<open>Object.prototype\<close>, and no
  entry is kept under the name \<open>__proto__\<close>.
\<close>

record uint8array =
  buffer :: bytes

type_synonym zip_entries = "(string \<times> uint8array) list"

text \<open>
  The URL modifier that the \<open>zip\<close> case installs over the entries of the archive. The
  reference is looked up as it is given. A reference that names no entry but a property
  inherited from \<open>Object.prototype\<close> finds that property, which is truthy and has no
  \<open>buffer\<close>: the blob is made of \<open>undefined\<close>, the text of which it holds.
\<close>

definition zipURLModifier ::
    "(nat \<Rightarrow> string) \<Rightarrow> zip_entries \<Rightarrow> string \<Rightarrow> url_store \<Rightarrow> string \<times> url_store" where
  "zipURLModifier mint archive url store =
     (case map_of archive url of
        Some data \<Rightarrow>
          createObjectURL mint \<lparr>blob_bytes = buffer data, blob_type = ''application/octet-stream''\<rparr> store
      | None \<Rightarrow>
          if url \<in> set object_prototype_names then
            createObjectURL mint \<lparr>blob_bytes = ''undefined'', blob_type = ''application/octet-stream''\<rparr> store
          else (url, store))"

text \<open>
  A \<open>THREE.LoadingManager\<close>, as far as this code configures one: the URL modifier set by
  \<open>setURLModifier\<close> and the file extensions for which \<open>addHandler\<close> registered a loader.
\<close>

record manager =
  urlModifier :: "string \<Rightarrow> url_store \<Rightarrow> string \<times> url_store"
  handlers :: "string list"

section \<open>Scene objects\<close>

text \<open>
  The numbers of \<open>normalizeModel\<close>: the finite ones are reals, and \<open>Infinity\<close>, \<open>-Infinity\<close>
  and \<open>NaN\<close> are values of their own, so that \<open>10 / 0\<close> is \<open>Infinity\<close>. Rounding, overflow and
  the sign of zero are not represented.
\<close>

datatype js_number = Finite real | Infinity | NegInfinity | NaN

fun js_div :: "js_number \<Rightarrow> js_number \<Rightarrow> js_number" where
  "js_div NaN y = NaN"
| "js_div x NaN = NaN"
| "js_div (Finite a) (Finite b) =
     (if b \<noteq> 0 then Finite (a / b)
      else if a = 0 then NaN
      else if 0 < a then Infinity
      else NegInfinity)"
| "js_div (Finite a) y = Finite 0"
| "js_div Infinity (Finite b) = (if b < 0 then NegInfinity else Infinity)"
| "js_div NegInfinity (Finite b) = (if b < 0 then Infinity else NegInfinity)"
| "js_div x y = NaN"

fun js_sub :: "js_number \<Rightarrow> js_number \<Rightarrow> js_number" where
  "js_sub NaN y = NaN"
| "js_sub x NaN = NaN"
| "js_sub (Finite a) (Finite b) = Finite (a - b)"
| "js_sub (Finite a) Infinity = NegInfinity"
| "js_sub (Finite a) NegInfinity = Infinity"
| "js_sub Infinity Infinity = NaN"
| "js_sub Infinity y = Infinity"
| "js_sub NegInfinity NegInfinity = NaN"
| "js_sub NegInfinity y = NegInfinity"

text \<open>\<open>Math.max\<close> of two numbers; of three, it is nested.\<close>

fun js_max :: "js_number \<Rightarrow> js_number \<Rightarrow> js_number" where
  "js_max NaN y = NaN"
| "js_max x NaN = NaN"
| "js_max Infinity y = Infinity"
| "js_max x Infinity = Infinity"
| "js_max NegInfinity y = y"
| "js_max x NegInfinity = x"
| "js_max (Finite a) (Finite b) = Finite (max a b)"

type_synonym vec3 = "js_number \<times> js_number \<times> js_number"

text \<open>\<open>a.sub(b)\<close> on vectors.\<close>

definition vec_sub :: "vec3 \<Rightarrow> vec3 \<Rightarrow> vec3" where
  "vec_sub a b =
     (case a of (ax, ay, az) \<Rightarrow> case b of (bx, by, bz) \<Rightarrow> (js_sub ax bx, js_sub ay by, js_sub az bz))"

text \<open>A \<open>BufferGeometry\<close>: its index buffer (\<open>null\<close> is \<open>None\<close>) and its named attributes.\<close>

record geometry =
  index :: "nat list option"
  attributes :: "(string \<times> real list) list"

definition hasAttribute :: "geometry \<Rightarrow> string \<Rightarrow> bool" where
  "hasAttribute g a = (map_of (attributes g) a \<noteq> None)"

definition setAttribute :: "string \<Rightarrow> real list \<Rightarrow> geometry \<Rightarrow> geometry" where
  "setAttribute a v g = g\<lparr>attributes := AList.update a v (attributes g)\<rparr>"

datatype side = FrontSide | BackSide | DoubleSide

datatype material =
    MeshStandardMaterial (vertexColors: bool) (side: side)
  | PointsMaterial (pointSize: real) (vertexColors: bool)

text \<open>
  An \<open>Object3D\<close>: its \<open>type\<close>, what it renders (a mesh or a point collection built here, line
  segments, or the opaque result of a decoder), and the properties this code reads or
  writes. The three flags are the ones \<open>clearScene\<close> tests; a flag that an object does not
  have reads as \<open>undefined\<close>, which is \<open>False\<close> here.
\<close>

datatype body =
    MeshBody geometry material
  | PointsBody geometry material
  | LineSegmentsBody
  | DecodedBody nat

record object3d =
  obj_name :: string
  obj_type :: string
  isCamera :: bool
  isLight :: bool
  isAxesHelper :: bool
  position :: vec3
  scale :: vec3
  animations :: "nat list"
  body :: body

definition new_object :: "string \<Rightarrow> body \<Rightarrow> object3d" where
  "new_object t b = \<lparr>obj_name = [], obj_type = t, isCamera = False, isLight = False,
     isAxesHelper = False, position = (Finite 0, Finite 0, Finite 0),
     scale = (Finite 1, Finite 1, Finite 1), animations = [], body = b\<rparr>"

definition Mesh :: "geometry \<Rightarrow> material \<Rightarrow> object3d" where
  "Mesh g m = new_object ''Mesh'' (MeshBody g m)"

definition Points :: "geometry \<Rightarrow> material \<Rightarrow> object3d" where
  "Points g m = new_object ''Points'' (PointsBody g m)"

text \<open>
  The coordinate-axes helper of three.js (which is not code of this repository), as
  \<open>new THREE.AxesHelper()\<close> makes it: line segments whose \<open>type\<close> is \<open>AxesHelper\<close>. It is
  neither camera nor light, and three.js gives it no property \<open>isAxesHelper\<close>.
\<close>

definition AxesHelper :: object3d where
  "AxesHelper = new_object ''AxesHelper'' LineSegmentsBody"

record gltf_result =
  gltf_scene :: object3d
  gltf_animations :: "nat list"

record scene =
  children :: "object3d list"

section \<open>Loading one file\<close>

datatype contents = Text string | ArrayBuffer bytes

datatype error =
    FileReadFailed
  | ReaderError
  | DecoderError string
  | NoModelInZip
  | UnsupportedFormat string

datatype aux_decoder = DRACOLoader | KTX2Loader

datatype event = Created aux_decoder | Disposed aux_decoder

type_synonym load_result = "(error + object3d) \<times> event list"

text \<open>
  The parts of the run that are not code of this repository: the browser's URL minting
  and file reading, the decoders of three.js, \<open>unzipSync\<close>, and the geometry of
  \<open>computeVertexNormals\<close> and \<open>Box3\<close>. A decoder fails with a message or returns its result.
\<close>

record env =
  mintURL :: "nat \<Rightarrow> string"
  readFails :: "File \<Rightarrow> bool"
  parseFBX :: "manager \<Rightarrow> contents \<Rightarrow> string + object3d"
  parseGLTF :: "manager \<Rightarrow> contents \<Rightarrow> string + gltf_result"
  parseOBJ :: "manager \<Rightarrow> contents \<Rightarrow> string + object3d"
  parsePLY :: "contents \<Rightarrow> string + geometry"
  parseSTL :: "contents \<Rightarrow> string + geometry"
  unzipSync :: "bytes \<Rightarrow> string + zip_entries"
  vertexNormals :: "geometry \<Rightarrow> real list"
  boxSize :: "object3d \<Rightarrow> vec3"
  boxCenter :: "object3d \<Rightarrow> vec3"

text \<open>
  The \<open>FileReader\<close>: \<open>readAsText\<close> for \<open>gltf\<close> and \<open>obj\<close>, \<open>readAsArrayBuffer\<close> otherwise;
  its \<open>error\<close> event rejects.
\<close>

definition readFile :: "env \<Rightarrow> string \<Rightarrow> File \<Rightarrow> error + contents" where
  "readFile env ext file =
     (if readFails env file then Inl ReaderError
      else if ext \<in> set [''gltf'', ''obj''] then Inr (Text (bytes file))
      else Inr (ArrayBuffer (bytes file)))"

text \<open>\<open>!contents\<close>: the empty string is falsy, an \<open>ArrayBuffer\<close> never is.\<close>

fun falsy :: "contents \<Rightarrow> bool" where
  "falsy (Text s) = (s = [])"
| "falsy (ArrayBuffer b) = False"

fun contents_bytes :: "contents \<Rightarrow> bytes" where
  "contents_bytes (Text s) = s"
| "contents_bytes (ArrayBuffer b) = b"

definition loadFBX :: "env \<Rightarrow> manager \<Rightarrow> string \<Rightarrow> contents \<Rightarrow> load_result" where
  "loadFBX env manager filename contents =
     (case parseFBX env manager contents of
        Inl msg \<Rightarrow> (Inl (DecoderError msg), [])
      | Inr object \<Rightarrow> (Inr (object\<lparr>obj_name := filename\<rparr>), []))"

text \<open>
  The cases \<open>glb\<close> and \<open>gltf\<close>: \<open>createGLTFLoader\<close> creates the two auxiliary decoders; the
  success callback disposes of them; the failure callback is \<open>reject\<close>.
\<close>

definition loadGLTF :: "env \<Rightarrow> manager \<Rightarrow> string \<Rightarrow> contents \<Rightarrow> load_result" where
  "loadGLTF env manager filename contents =
     (let created = [Created DRACOLoader, Created KTX2Loader]
      in case parseGLTF env manager contents of
           Inl msg \<Rightarrow> (Inl (DecoderError msg), created)
         | Inr result \<Rightarrow>
             (let scene = gltf_scene result;
                  scene = scene\<lparr>obj_name := filename\<rparr>;
                  scene = scene\<lparr>animations := animations scene @ gltf_animations result\<rparr>
              in (Inr scene, created @ [Disposed DRACOLoader, Disposed KTX2Loader])))"

definition loadOBJ :: "env \<Rightarrow> manager \<Rightarrow> string \<Rightarrow> contents \<Rightarrow> load_result" where
  "loadOBJ env manager filename contents =
     (case parseOBJ env manager contents of
        Inl msg \<Rightarrow> (Inl (DecoderError msg), [])
      | Inr object \<Rightarrow> (Inr (object\<lparr>obj_name := filename\<rparr>), []))"

text \<open>\<open>geometry.computeVertexNormals()\<close> sets the \<open>normal\<close> attribute when there are positions.\<close>

definition computeVertexNormals :: "env \<Rightarrow> geometry \<Rightarrow> geometry" where
  "computeVertexNormals env g =
     (if \<not> hasAttribute g ''position'' then g
      else setAttribute ''normal'' (vertexNormals env g) g)"

definition loadPLY :: "env \<Rightarrow> string \<Rightarrow> contents \<Rightarrow> load_result" where
  "loadPLY env filename contents =
     (case parsePLY env contents of
        Inl msg \<Rightarrow> (Inl (DecoderError msg), [])
      | Inr parsed \<Rightarrow>
          (let geometry = computeVertexNormals env parsed;
               object =
                 (if index geometry \<noteq> None then
                    Mesh geometry (MeshStandardMaterial (hasAttribute geometry ''color'') DoubleSide)
                  else
                    Points geometry (PointsMaterial (1 / 100) (hasAttribute geometry ''color'')))
           in (Inr (object\<lparr>obj_name := filename\<rparr>), [])))"

definition loadSTL :: "env \<Rightarrow> string \<Rightarrow> contents \<Rightarrow> load_result" where
  "loadSTL env filename contents =
     (case parseSTL env contents of
        Inl msg \<Rightarrow> (Inl (DecoderError msg), [])
      | Inr geometry \<Rightarrow>
          (let mesh = Mesh geometry (MeshStandardMaterial False FrontSide)
           in (Inr (mesh\<lparr>obj_name := filename\<rparr>), [])))"

definition zipSupportedExtensions :: "string list" where
  "zipSupportedExtensions = [''gltf'', ''glb'', ''fbx'', ''obj'', ''stl'', ''ply'']"

definition zipManager :: "env \<Rightarrow> zip_entries \<Rightarrow> manager" where
  "zipManager env archive = \<lparr>urlModifier = zipURLModifier (mintURL env) archive, handlers = []\<rparr>"

text \<open>
  \<open>loadFile\<close>: read the file, then the \<open>switch\<close> on the extension. The \<open>zip\<close> case calls
  \<open>loadFile\<close> again on the first entry with a supported extension.
\<close>

function loadFile :: "env \<Rightarrow> File \<Rightarrow> manager \<Rightarrow> load_result" where
  "loadFile env file manager =
     (let filename = name file;
          ext = extension filename
      in case readFile env ext file of
           Inl e \<Rightarrow> (Inl e, [])
         | Inr contents \<Rightarrow>
             if falsy contents then (Inl FileReadFailed, [])
             else if ext = ''fbx'' then loadFBX env manager filename contents
             else if ext = ''glb'' then loadGLTF env manager filename contents
             else if ext = ''gltf'' then loadGLTF env manager filename contents
             else if ext = ''obj'' then loadOBJ env manager filename contents
             else if ext = ''ply'' then loadPLY env filename contents
             else if ext = ''stl'' then loadSTL env filename contents
             else if ext = ''zip'' then
               (case unzipSync env (contents_bytes contents) of
                  Inl msg \<Rightarrow> (Inl (DecoderError msg), [])
                | Inr archive \<Rightarrow>
                    (case find (\<lambda>(path, fileData). extension path \<in> set zipSupportedExtensions) archive of
                       Some (path, fileData) \<Rightarrow>
                         loadFile env \<lparr>name = path, bytes = buffer fileData, mime = []\<rparr>
                           (zipManager env archive)
                     | None \<Rightarrow> (Inl NoModelInZip, [])))
             else (Inl (UnsupportedFormat ext), []))"
  by pat_completeness auto
termination
  by (relation "measure (\<lambda>(env, file, manager). if extension (name file) = ''zip'' then 1 else 0)")
     (auto simp: find_Some_iff zipSupportedExtensions_def)

declare loadFile.simps [simp del]

section \<open>Normalising the model and swapping it into the scene\<close>

text \<open>
  \<open>normalizeModel\<close>. The bounding box of an object is computed by three.js; its size and
  its centre are parameters.
\<close>

definition normalizeModel :: "env \<Rightarrow> object3d \<Rightarrow> object3d" where
  "normalizeModel env object =
     (let size = boxSize env object;
          center = boxCenter env object;
          maxSize = (case size of (x, y, z) \<Rightarrow> js_max x (js_max y z));
          desiredSize = Finite 10;
          s = js_div desiredSize maxSize;
          object = object\<lparr>position := vec_sub (position object) center\<rparr>;
          object = object\<lparr>scale := (s, s, s)\<rparr>;
          newCenter = boxCenter env object
      in object\<lparr>position := vec_sub (position object) newCenter\<rparr>)"

text \<open>
  \<open>scene.remove(child)\<close> takes the child out of \<open>children\<close>, \<open>scene.add(object)\<close> appends it.
  Objects are values here, so a child is found by equality.
\<close>

definition scene_remove :: "object3d \<Rightarrow> scene \<Rightarrow> scene" where
  "scene_remove child sc = sc\<lparr>children := remove1 child (children sc)\<rparr>"

definition scene_add :: "object3d \<Rightarrow> scene \<Rightarrow> scene" where
  "scene_add object sc = sc\<lparr>children := children sc @ [object]\<rparr>"

definition is_helper :: "object3d \<Rightarrow> bool" where
  "is_helper child = (isCamera child \<or> isLight child \<or> isAxesHelper child)"

definition clearScene :: "scene \<Rightarrow> scene" where
  "clearScene sc =
     (let objectsToRemove = filter (\<lambda>child. \<not> (isCamera child \<or> isLight child \<or> isAxesHelper child)) (children sc)
      in fold scene_remove objectsToRemove sc)"

section \<open>loadModel\<close>

datatype notification = LoadFailed error | NoSupportedFile "string list"

datatype drop_input = DataTransferItemList "item list" | FileList "File list"

definition supportedExtensions :: "string list" where
  "supportedExtensions = [''stl'', ''obj'', ''ply'', ''gltf'', ''glb'', ''fbx'', ''zip'']"

definition primaryFile :: "File list \<Rightarrow> File option" where
  "primaryFile fs = find (\<lambda>f. extension (name f) \<in> set supportedExtensions) fs"

definition outerManager :: "env \<Rightarrow> files_map \<Rightarrow> manager" where
  "outerManager env fm = \<lparr>urlModifier = outerURLModifier (mintURL env) fm, handlers = [''tga'']\<rparr>"

text \<open>
  \<open>loadModel\<close> from the check \<open>files.length === 0\<close> on: the scene afterwards and the alerts
  shown.
\<close>

definition loadModel_files :: "env \<Rightarrow> File list \<Rightarrow> files_map \<Rightarrow> scene \<Rightarrow> scene \<times> notification list" where
  "loadModel_files env fs fm sc =
     (if fs = [] then (sc, [])
      else
        (case primaryFile fs of
           Some pf \<Rightarrow>
             (case fst (loadFile env pf (outerManager env fm)) of
                Inr object \<Rightarrow> (scene_add (normalizeModel env object) (clearScene sc), [])
              | Inl e \<Rightarrow> (sc, [LoadFailed e]))
         | None \<Rightarrow> (sc, [NoSupportedFile supportedExtensions])))"

text \<open>
  The first step of \<open>loadModel\<close>: the file list and the file table of the dropped items. For
  a \<open>DataTransferItemList\<close> it awaits the promise of \<open>getFilesFromItemList\<close>, and the result
  is \<open>None\<close> while that promise is unsettled.
\<close>

definition extractFiles :: "nat list \<Rightarrow> drop_input \<Rightarrow> (File list \<times> files_map) option" where
  "extractFiles sched droppedItems =
     (case droppedItems of
        DataTransferItemList items \<Rightarrow> getFilesFromItemList sched items
      | FileList fileList \<Rightarrow> Some (fileList, createFilesMap fileList))"

definition loadModel :: "env \<Rightarrow> nat list \<Rightarrow> drop_input \<Rightarrow> scene \<Rightarrow> (scene \<times> notification list) option" where
  "loadModel env sched droppedItems sc =
     (case extractFiles sched droppedItems of
        None \<Rightarrow> None
      | Some (fs, fm) \<Rightarrow> Some (loadModel_files env fs fm sc))"


section \<open>Example inputs\<close>

text \<open>
  Concrete inputs at which the theorems below are evaluated: a decoder environment whose
  PLY and STL decoders return fixed geometries and whose GLTF decoder rejects, some files,
  an archive and two scenes. The bounding box of the environment is one unit by two by
  four, centred one, two and three units off the position of the object.
\<close>

definition ply_mesh_geometry :: geometry where
  "ply_mesh_geometry = \<lparr>index = Some [0, 1, 2],
     attributes = [(''position'', [0, 0, 0, 1, 0, 0, 0, 1, 0]), (''color'', [1, 0, 0, 0, 1, 0, 0, 0, 1])]\<rparr>"

definition stl_geometry :: geometry where
  "stl_geometry = \<lparr>index = None,
     attributes = [(''position'', [0, 0, 0, 1, 0, 0, 0, 1, 0]), (''color'', [1, 0, 0, 0, 1, 0, 0, 0, 1])]\<rparr>"

definition demo_archive :: zip_entries where
  "demo_archive = [(''readme.txt'', \<lparr>buffer = ''hello''\<rparr>), (''mesh/part.stl'', \<lparr>buffer = ''solid''\<rparr>),
     (''tex.png'', \<lparr>buffer = ''PNG''\<rparr>)]"

definition demo_mint :: "nat \<Rightarrow> string" where
  "demo_mint n = ''blob:'' @ replicate n CHR ''i''"

definition demo_env :: env where
  "demo_env = \<lparr>
     mintURL = demo_mint,
     readFails = (\<lambda>f. False),
     parseFBX = (\<lambda>m c. Inl ''not an FBX file''),
     parseGLTF = (\<lambda>m c. Inl ''Unexpected token in JSON''),
     parseOBJ = (\<lambda>m c. Inr (new_object ''Group'' (DecodedBody 0))),
     parsePLY = (\<lambda>c. Inr ply_mesh_geometry),
     parseSTL = (\<lambda>c. Inr stl_geometry),
     unzipSync = (\<lambda>b. Inr demo_archive),
     vertexNormals = (\<lambda>g. [0, 0, 1, 0, 0, 1, 0, 0, 1]),
     boxSize = (\<lambda>object. (Finite 1, Finite 2, Finite 4)),
     boxCenter = (\<lambda>object. vec_sub (position object) (Finite (- 1), Finite (- 2), Finite (- 3)))\<rparr>"

definition demo_manager :: manager where
  "demo_manager = outerManager demo_env Map.empty"

definition demo_light :: object3d where
  "demo_light = (new_object ''DirectionalLight'' (DecodedBody 1))\<lparr>obj_name := ''light'', isLight := True\<rparr>"

definition old_model :: object3d where
  "old_model = (new_object ''Group'' (DecodedBody 2))\<lparr>obj_name := ''old.obj''\<rparr>"

definition demo_scene :: scene where
  "demo_scene = \<lparr>children = [demo_light, old_model]\<rparr>"

definition axes_scene :: scene where
  "axes_scene = \<lparr>children = [demo_light, AxesHelper, old_model]\<rparr>"

definition stl_file :: File where
  "stl_file = \<lparr>name = ''Part.STL'', bytes = ''solid'', mime = []\<rparr>"

definition ply_file :: File where
  "ply_file = \<lparr>name = ''bunny.ply'', bytes = ''ply'', mime = []\<rparr>"

definition glb_file :: File where
  "glb_file = \<lparr>name = ''broken.glb'', bytes = ''glTF'', mime = []\<rparr>"

definition zip_file :: File where
  "zip_file = \<lparr>name = ''bundle.zip'', bytes = ''PK'', mime = ''application/zip''\<rparr>"

definition txt_file :: File where
  "txt_file = \<lparr>name = ''notes.txt'', bytes = ''todo'', mime = ''text/plain''\<rparr>"

definition obj_file :: File where
  "obj_file = \<lparr>name = ''a.obj'', bytes = ''v 0 0 0'', mime = []\<rparr>"

definition mtl_file :: File where
  "mtl_file = \<lparr>name = ''b.mtl'', bytes = ''newmtl m'', mime = []\<rparr>"

definition proto_file :: File where
  "proto_file = \<lparr>name = ''__proto__'', bytes = ''data'', mime = []\<rparr>"

definition demo_items :: "item list" where
  "demo_items = [FileItem (DirectoryEntry [FileEntry ''/d/a.obj'' obj_file, OtherEntry]), StringItem,
     FileItem (FileEntry ''/b.mtl'' mtl_file)]"

definition other_first_items :: "item list" where
  "other_first_items = [FileItem OtherEntry, FileItem (FileEntry ''/a.obj'' obj_file)]"


section \<open>Properties\<close>

lemma js_split_not_Nil: "js_split sep s \<noteq> []"
  by (induction s) (auto split: list.splits)

lemma js_split_no_sep: "sep \<notin> set s \<Longrightarrow> js_split sep s = [s]"
  by (induction s) auto

lemma js_split_sep: "sep \<in> set s \<Longrightarrow> \<exists>a b rest. js_split sep s = a # b # rest"
proof (induction s)
  case Nil
  then show ?case by simp
next
  case (Cons c cs)
  show ?case
  proof (cases "c = sep")
    case True
    then show ?thesis
      using js_split_not_Nil [of sep cs] by (cases "js_split sep cs") auto
  next
    case False
    with Cons.prems have "sep \<in> set cs" by simp
    from Cons.IH [OF this] False show ?thesis by auto
  qed
qed

lemma last_js_split: "last (js_split sep s) = rev (takeWhile (\<lambda>c. c \<noteq> sep) (rev s))"
proof (induction s)
  case Nil
  show ?case by simp
next
  case (Cons c cs)
  show ?case
  proof (cases "sep \<in> set cs")
    case True
    then obtain a b rest where split: "js_split sep cs = a # b # rest"
      using js_split_sep by blast
    from True have tw: "takeWhile (\<lambda>c. c \<noteq> sep) (rev cs @ [c]) = takeWhile (\<lambda>c. c \<noteq> sep) (rev cs)"
      by (simp add: takeWhile_append1)
    from split Cons.IH tw show ?thesis by auto
  next
    case False
    then have one: "js_split sep cs = [cs]" by (rule js_split_no_sep)
    from False have all: "takeWhile (\<lambda>c. c \<noteq> sep) (rev cs) = rev cs"
      by (auto simp: takeWhile_eq_all_conv)
    show ?thesis
    proof (cases "c = sep")
      case True
      with one show ?thesis by (simp add: takeWhile_tail all)
    next
      case neq: False
      with False have app: "takeWhile (\<lambda>c. c \<noteq> sep) (rev cs @ [c]) = rev cs @ [c]"
        by (auto simp: takeWhile_eq_all_conv)
      from one neq show ?thesis by (simp add: app)
    qed
  qed
qed

lemma extension_final_segment: "extension n = toLowerCase (final_dot_segment n)"
  by (simp add: extension_def js_pop_def js_split_not_Nil last_js_split final_dot_segment_def
      toLowerCase_def Let_def)


subsection \<open>The file table, selection and the scene\<close>

lemma dom_js_assign:
  "dom (js_assign k v m) = (if k = ''__proto__'' then dom m else insert k (dom m))"
  by (simp add: js_assign_def)

lemma fold_files_dom:
  "dom (fold (\<lambda>f m. js_assign (name f) f m) fs m0)
     = dom m0 \<union> (name ` set fs - {''__proto__''})"
  by (induction fs arbitrary: m0) (auto simp: dom_js_assign)

lemma find_snoc:
  "find P (xs @ [x]) = (case find P xs of Some y \<Rightarrow> Some y | None \<Rightarrow> if P x then Some x else None)"
  by (induction xs) auto

lemma fold_files_lookup:
  assumes "k \<noteq> ''__proto__''"
  shows "fold (\<lambda>f m. js_assign (name f) f m) fs m0 k =
     (case find (\<lambda>f. name f = k) (rev fs) of Some f \<Rightarrow> Some f | None \<Rightarrow> m0 k)"
proof (induction fs arbitrary: m0)
  case Nil
  show ?case by simp
next
  case (Cons f fs)
  have "fold (\<lambda>f m. js_assign (name f) f m) (f # fs) m0 k
      = fold (\<lambda>f m. js_assign (name f) f m) fs (js_assign (name f) f m0) k"
    by simp
  also have "\<dots> = (case find (\<lambda>f. name f = k) (rev fs) of
        Some f' \<Rightarrow> Some f' | None \<Rightarrow> (js_assign (name f) f m0) k)"
    by (rule Cons.IH)
  also have "\<dots> = (case find (\<lambda>f. name f = k) (rev (f # fs)) of
        Some f' \<Rightarrow> Some f' | None \<Rightarrow> m0 k)"
    using assms by (auto simp: find_snoc js_assign_def split: option.splits)
  finally show ?case .
qed

text \<open>
  What \<open>createFilesMap\<close> stores: a key for every file name but \<open>__proto__\<close>, and under a key
  the last file of the list that has this name.
\<close>

lemma createFilesMap_stored:
  "dom (createFilesMap fs) = name ` set fs - {''__proto__''}
   \<and> (k \<noteq> ''__proto__'' \<longrightarrow> createFilesMap fs k = find (\<lambda>f. name f = k) (rev fs))"
  by (simp add: createFilesMap_def fold_files_dom fold_files_lookup split: option.splits)

lemma find_filter_hd: "find P xs = (case filter P xs of [] \<Rightarrow> None | x # _ \<Rightarrow> Some x)"
  by (induction xs) auto

lemma fold_remove1_filter:
  "\<forall>y \<in> set ys. \<not> Q y \<Longrightarrow>
     fold remove1 (filter Q xs) (ys @ xs) = ys @ filter (\<lambda>x. \<not> Q x) xs"
proof (induction xs arbitrary: ys)
  case Nil
  show ?case by simp
next
  case (Cons x xs)
  show ?case
  proof (cases "Q x")
    case True
    with Cons.prems have "x \<notin> set ys" by blast
    then have "remove1 x (ys @ x # xs) = ys @ xs" by (simp add: remove1_append)
    with True Cons.IH [OF Cons.prems] show ?thesis by simp
  next
    case False
    with Cons.prems have "\<forall>y \<in> set (ys @ [x]). \<not> Q y" by simp
    from Cons.IH [OF this] False show ?thesis by simp
  qed
qed

lemma children_fold_scene_remove:
  "children (fold scene_remove rs sc) = fold remove1 rs (children sc)"
  by (induction rs arbitrary: sc) (simp_all add: scene_remove_def)

lemma children_clearScene: "children (clearScene sc) = filter is_helper (children sc)"
  using fold_remove1_filter [of "[]" "\<lambda>c. \<not> is_helper c" "children sc"]
  by (simp add: clearScene_def children_fold_scene_remove is_helper_def [abs_def])


lemma map_eq_map_of:
  assumes "distinct (map fst al)"
    and "dom m = fst ` set al"
    and "\<forall>k v. m k = Some v \<longrightarrow> (k, v) \<in> set al"
  shows "m = map_of al"
proof
  fix k
  show "m k = map_of al k"
  proof (cases "m k")
    case None
    then have "k \<notin> dom m" by (simp add: domIff)
    then have "k \<notin> fst ` set al" using assms(2) by simp
    then have "map_of al k = None" by (simp add: map_of_eq_None_iff)
    with None show ?thesis by simp
  next
    case (Some v)
    with assms(3) have "(k, v) \<in> set al" by blast
    with assms(1) have "map_of al k = Some v" by (rule map_of_is_SomeI)
    with Some show ?thesis by simp
  qed
qed


subsection \<open>Decoding and URL resolution\<close>

lemmas ext_eval = extension_def js_pop_def toLowerCase_def toLowerCase_char_def

lemma index_computeVertexNormals: "index (computeVertexNormals env g) = index g"
  by (simp add: computeVertexNormals_def setAttribute_def)

lemma color_computeVertexNormals:
  "hasAttribute (computeVertexNormals env g) ''color'' = hasAttribute g ''color''"
  by (simp add: computeVertexNormals_def setAttribute_def hasAttribute_def update_conv')

text \<open>When the GLTF decoder succeeds, both auxiliary decoders are disposed of.\<close>

lemma gltf_success_disposes:
  assumes "\<not> readFails env f" "extension (name f) = ''glb'' \<or> extension (name f) = ''gltf''"
    "parseGLTF env m (if extension (name f) = ''gltf'' then Text (bytes f) else ArrayBuffer (bytes f)) = Inr result"
    "bytes f \<noteq> []"
  shows "snd (loadFile env f m) =
     [Created DRACOLoader, Created KTX2Loader, Disposed DRACOLoader, Disposed KTX2Loader]"
  using assms by (subst loadFile.simps) (auto simp: readFile_def loadGLTF_def Let_def)

text \<open>
  The URL modifier over the dropped files: when the reference without its leading \<open>./\<close> or
  \<open>/\<close> is a stored key, the URL it returns reads back as the file's bytes.
\<close>

lemma strip_leading_cases:
  "strip_leading (''./'' @ r) = r"
  "strip_leading (''/'' @ r) = r"
  "take 2 url \<noteq> ''./'' \<Longrightarrow> take 1 url \<noteq> ''/'' \<Longrightarrow> strip_leading url = url"
  by (simp_all add: strip_leading_def)

lemma outerURLModifier_hit:
  assumes "fm (strip_leading url) = Some f"
  shows "\<exists>u store'. outerURLModifier mint fm url store = (u, store')
      \<and> read_url store' u = Some \<lparr>blob_bytes = bytes f, blob_type = mime f\<rparr>"
  using assms by (simp add: outerURLModifier_def createObjectURL_def read_url_def file_blob_def Let_def)

text \<open>A reference that finds neither a stored key nor an inherited property comes back.\<close>

lemma outerURLModifier_miss:
  "fm (strip_leading url) = None \<Longrightarrow> strip_leading url \<notin> set object_prototype_names \<Longrightarrow>
     outerURLModifier mint fm url store = (url, store)"
  by (simp add: outerURLModifier_def)

text \<open>
  The URL modifier over an archive looks the reference up as it is given: an entry of that
  path is found, any other reference comes back unchanged unless it names a property that
  the archive object inherits.
\<close>

lemma zipURLModifier_hit:
  assumes "map_of archive url = Some d"
  shows "\<exists>u store'. zipURLModifier mint archive url store = (u, store')
      \<and> read_url store' u = Some \<lparr>blob_bytes = buffer d, blob_type = ''application/octet-stream''\<rparr>"
  using assms by (simp add: zipURLModifier_def createObjectURL_def read_url_def Let_def)

lemma zipURLModifier_miss:
  "map_of archive url = None \<Longrightarrow> url \<notin> set object_prototype_names \<Longrightarrow>
     zipURLModifier mint archive url store = (url, store)"
  by (simp add: zipURLModifier_def)

lemma zipURLModifier_inherited:
  assumes "map_of archive url = None" and "url \<in> set object_prototype_names"
  shows "\<exists>u store'. zipURLModifier mint archive url store = (u, store')
      \<and> read_url store' u = Some \<lparr>blob_bytes = ''undefined'', blob_type = ''application/octet-stream''\<rparr>"
  using assms by (simp add: zipURLModifier_def createObjectURL_def read_url_def Let_def)

lemma loadModel_files_unchanged:
  assumes "loadModel_files env fs fm sc = (sc', al)" and "al \<noteq> []"
  shows "sc' = sc"
  using assms by (auto simp: loadModel_files_def split: if_splits option.splits sum.splits)

lemma primaryFile_Some_nonempty: "primaryFile fs = Some pf \<Longrightarrow> fs \<noteq> []"
  by (auto simp: primaryFile_def)

text \<open>
  The swap in terms of the flags that \<open>clearScene\<close> tests: the prior children that carry one
  of them stay, in their order, followed by the normalised new object.
\<close>

lemma scene_swap:
  assumes "extractFiles sched droppedItems = Some (fs, fm)"
    and "primaryFile fs = Some pf"
    and "fst (loadFile env pf (outerManager env fm)) = Inr object"
  shows "loadModel env sched droppedItems sc =
      Some (sc\<lparr>children := filter is_helper (children sc) @ [normalizeModel env object]\<rparr>, [])"
proof -
  from assms(2) have "fs \<noteq> []" by (rule primaryFile_Some_nonempty)
  moreover have "scene_add (normalizeModel env object) (clearScene sc)
      = sc\<lparr>children := filter is_helper (children sc) @ [normalizeModel env object]\<rparr>"
    by (simp add: scene_add_def children_clearScene)
  ultimately show ?thesis using assms by (simp add: loadModel_def loadModel_files_def)
qed


subsection \<open>The completion barrier of the traversal\<close>

lemma handleEntry_busy:
  assumes "itemsCount st < itemsTotal st"
  shows "itemsCount (handleEntry e st) < itemsTotal (handleEntry e st)
    \<and> slack (handleEntry e st) = slack st
    \<and> resolveCalls (handleEntry e st) = resolveCalls st
    \<and> files (handleEntry e st) = files st
    \<and> filesMap (handleEntry e st) = filesMap st
    \<and> pending_callbacks (handleEntry e st) = pending_callbacks st + entry_callbacks e
    \<and> pending_files (handleEntry e st) = pending_files st @ entry_files e"
  using assms
  by (cases e) (auto simp: slack_def pending_callbacks_def pending_files_def onEntryHandled_def Let_def)

lemma fold_handleEntry_busy:
  assumes "itemsCount st < itemsTotal st"
  shows "itemsCount (fold handleEntry es st) < itemsTotal (fold handleEntry es st)
    \<and> slack (fold handleEntry es st) = slack st
    \<and> resolveCalls (fold handleEntry es st) = resolveCalls st
    \<and> files (fold handleEntry es st) = files st
    \<and> filesMap (fold handleEntry es st) = filesMap st
    \<and> pending_callbacks (fold handleEntry es st) = pending_callbacks st + sum_list (map entry_callbacks es)
    \<and> pending_files (fold handleEntry es st) = pending_files st @ concat (map entry_files es)"
  using assms
proof (induction es arbitrary: st)
  case Nil
  then show ?case by simp
next
  case (Cons e es)
  from handleEntry_busy [OF Cons.prems, of e] Cons.IH [of "handleEntry e st"]
  show ?case by simp
qed


lemma set_stored: "set (stored al) = {(k, f). (k, f) \<in> set al \<and> k \<noteq> ''__proto__''}"
  by (auto simp: stored_def)

lemma stored_append: "stored (xs @ ys) = stored xs @ stored ys"
  by (simp add: stored_def)

lemma task_callbacks_pos: "0 < task_callbacks t"
  by (cases t) auto

lemma pending_callbacks_0: "pending_callbacks st = 0 \<longleftrightarrow> pending st = []"
proof (cases "pending st")
  case Nil
  then show ?thesis by (simp add: pending_callbacks_def)
next
  case (Cons t ts)
  with task_callbacks_pos [of t] show ?thesis by (simp add: pending_callbacks_def)
qed

lemma onEntryHandled_last:
  assumes "slack st = 1"
  shows "slack (onEntryHandled st) = 0
    \<and> pending (onEntryHandled st) = pending st
    \<and> files (onEntryHandled st) = files st
    \<and> filesMap (onEntryHandled st) = filesMap st
    \<and> resolveCalls (onEntryHandled st) = resolveCalls st + (if pending st = [] then 1 else 0)"
  using assms
  by (cases "pending st") (auto simp: onEntryHandled_def resolve_def slack_def Let_def)

lemma pending_callbacks_same: "pending st' = pending st \<Longrightarrow> pending_callbacks st' = pending_callbacks st"
  by (simp add: pending_callbacks_def)

lemma pending_files_same: "pending st' = pending st \<Longrightarrow> pending_files st' = pending_files st"
  by (simp add: pending_files_def)

lemma turn_idle: "pending st = [] \<Longrightarrow> turn c st = st"
  by (simp add: turn_def)

lemma turn_step:
  assumes inv: "barrier_inv all st" and busy: "pending st \<noteq> []"
  shows "barrier_inv all (turn c st) \<and> Suc (pending_callbacks (turn c st)) = pending_callbacks st"
proof -
  define ps where "ps = pending st"
  define i where "i = c mod length ps"
  define t where "t = ps ! i"
  define st1 where "st1 = st\<lparr>pending := take i ps @ drop (Suc i) ps\<rparr>"
  from busy have i: "i < length ps" by (simp add: i_def ps_def)
  then have ps: "ps = take i ps @ t # drop (Suc i) ps"
    unfolding t_def by (rule id_take_nth_drop)
  have turn: "turn c st = runCallback t st1"
    using busy by (simp add: turn_def Let_def ps_def i_def t_def st1_def)
  from inv have slack0: "slack st = 0"
    and rc: "resolveCalls st = 0"
    and ms: "mset (files st) + mset (map snd (pending_files st)) = mset (map snd all)"
    and dm: "dom (filesMap st) \<union> fst ` set (stored (pending_files st)) = fst ` set (stored all)"
    and vl: "\<forall>k f. filesMap st k = Some f \<longrightarrow> (k, f) \<in> set (stored all)"
    and sb: "set (pending_files st) \<subseteq> set all"
    using busy by (simp_all add: barrier_inv_def)
  have len: "length (pending st1) + 1 = length (pending st)"
    using i by (simp add: st1_def ps_def [symmetric] min_def)
  have slack1: "slack st1 = 1"
    using slack0 len by (simp add: slack_def st1_def)
  have busy1: "itemsCount st1 < itemsTotal st1"
    using slack1 by (simp add: slack_def)
  have pc: "pending_callbacks st = pending_callbacks st1 + task_callbacks t"
    by (subst pending_callbacks_def, fold ps_def, subst ps)
       (simp add: pending_callbacks_def st1_def)
  have pf: "mset (pending_files st) = mset (pending_files st1) + mset (task_files t)"
    by (subst pending_files_def, fold ps_def, subst ps)
       (simp add: pending_files_def st1_def)
  have pfs: "set (pending_files st) = set (pending_files st1) \<union> set (task_files t)"
    using pf by (metis set_mset_mset set_mset_union)
  have spfs: "set (stored (pending_files st))
      = set (stored (pending_files st1)) \<union> set (stored (task_files t))"
    using pfs by (auto simp: set_stored)
  have same: "files st1 = files st" "filesMap st1 = filesMap st"
    "resolveCalls st1 = resolveCalls st"
    "itemsCount st1 = itemsCount st" "itemsTotal st1 = itemsTotal st"
    by (simp_all add: st1_def)
  show ?thesis
  proof (cases t)
    case (ReadEntriesCallback es)
    let ?st2 = "fold handleEntry es st1"
    note f = fold_handleEntry_busy [OF busy1, of es]
    have r: "turn c st = onEntryHandled ?st2"
      by (simp add: turn ReadEntriesCallback)
    from f slack1 have s2: "slack ?st2 = 1" by simp
    note o = onEntryHandled_last [OF s2]
    from o have pend: "pending (turn c st) = pending ?st2" by (simp add: r)
    have cb: "Suc (pending_callbacks (turn c st)) = pending_callbacks st"
      using f by (simp add: pending_callbacks_same [OF pend] pc ReadEntriesCallback)
    have pf2: "pending_files (turn c st) = pending_files st1 @ task_files t"
      using f by (simp add: pending_files_same [OF pend] ReadEntriesCallback)
    have "barrier_inv all (turn c st)"
      unfolding barrier_inv_def
    proof (intro conjI)
      show "slack (turn c st) = 0" using o by (simp add: r)
      show "resolveCalls (turn c st) = (if pending (turn c st) = [] then 1 else 0)"
        using o f rc by (simp add: r same)
      show "mset (files (turn c st)) + mset (map snd (pending_files (turn c st))) = mset (map snd all)"
        using o f ms pf by (simp add: pf2) (simp add: r same pf [symmetric] flip: mset_map)
      show "dom (filesMap (turn c st)) \<union> fst ` set (stored (pending_files (turn c st)))
          = fst ` set (stored all)"
        using o f dm by (simp add: pf2 stored_append) (simp add: r same spfs Un_commute)
      show "\<forall>k f. filesMap (turn c st) k = Some f \<longrightarrow> (k, f) \<in> set (stored all)"
        using o f vl by (simp add: r same)
      show "set (pending_files (turn c st)) \<subseteq> set all"
        using sb by (simp add: pf2 pfs)
    qed
    with cb show ?thesis by simp
  next
    case (FileCallback p f)
    let ?st2 = "st1\<lparr>files := files st1 @ [f], filesMap := js_assign (drop 1 p) f (filesMap st1)\<rparr>"
    have r: "turn c st = onEntryHandled ?st2"
      by (simp add: turn FileCallback)
    from slack1 have s2: "slack ?st2 = 1" by (simp add: slack_def)
    note o = onEntryHandled_last [OF s2]
    from o have pend: "pending (turn c st) = pending st1" by (simp add: r)
    have cb: "Suc (pending_callbacks (turn c st)) = pending_callbacks st"
      by (simp add: pending_callbacks_same [OF pend] pc FileCallback)
    have pf2: "pending_files (turn c st) = pending_files st1"
      by (simp add: pending_files_same [OF pend])
    have mem: "(drop 1 p, f) \<in> set all"
    proof -
      have "(drop 1 p, f) \<in> set (pending_files st)"
        by (simp add: pfs FileCallback)
      with sb show ?thesis by blast
    qed
    have "barrier_inv all (turn c st)"
      unfolding barrier_inv_def
    proof (intro conjI)
      show "slack (turn c st) = 0" using o by (simp add: r)
      show "resolveCalls (turn c st) = (if pending (turn c st) = [] then 1 else 0)"
        using o rc by (simp add: r same)
      show "mset (files (turn c st)) + mset (map snd (pending_files (turn c st))) = mset (map snd all)"
        using o ms pf by (simp add: pf2) (simp add: r same FileCallback flip: mset_map)
      show "dom (filesMap (turn c st)) \<union> fst ` set (stored (pending_files (turn c st)))
          = fst ` set (stored all)"
      proof -
        have fm: "filesMap (turn c st) = js_assign (drop 1 p) f (filesMap st)"
          using o by (simp add: r same)
        have "dom (js_assign (drop 1 p) f (filesMap st))
            = dom (filesMap st) \<union> fst ` set (stored (task_files t))"
          by (simp add: dom_js_assign FileCallback stored_def)
        then have "dom (filesMap (turn c st)) \<union> fst ` set (stored (pending_files (turn c st)))
            = dom (filesMap st) \<union> fst ` set (stored (pending_files st))"
          unfolding fm pf2 spfs by (simp only: image_Un Un_assoc Un_commute [of "fst ` set (stored (task_files t))"])
        with dm show ?thesis by simp
      qed
      show "\<forall>k f. filesMap (turn c st) k = Some f \<longrightarrow> (k, f) \<in> set (stored all)"
        using o vl mem by (auto simp add: r same js_assign_def set_stored split: if_splits)
      show "set (pending_files (turn c st)) \<subseteq> set all"
        using sb by (simp add: pf2 pfs)
    qed
    with cb show ?thesis by simp
  qed
qed


lemma turn_inv:
  assumes "barrier_inv all st"
  shows "barrier_inv all (turn c st) \<and> pending_callbacks (turn c st) = pending_callbacks st - 1"
proof (cases "pending st = []")
  case True
  with assms show ?thesis by (simp add: turn_idle pending_callbacks_def)
next
  case False
  from turn_step [OF assms False, of c]
  have "barrier_inv all (turn c st)" and "Suc (pending_callbacks (turn c st)) = pending_callbacks st"
    by blast+
  then show ?thesis by linarith
qed

lemma run_inv:
  assumes "barrier_inv all st"
  shows "barrier_inv all (run sched st)
    \<and> pending_callbacks (run sched st) = pending_callbacks st - length sched"
  using assms
proof (induction sched arbitrary: st)
  case Nil
  then show ?case by (simp add: run_def)
next
  case (Cons c sched)
  from turn_inv [OF Cons.prems, of c] Cons.IH [of "turn c st"]
  show ?case by (simp add: run_def)
qed

lemma fold_handleItem: "fold handleItem its st = fold handleEntry (item_entries its) st"
  by (induction its arbitrary: st rule: item_entries.induct) simp_all

lemma start_inv:
  assumes "starts_pending items"
  shows "barrier_inv (all_files items) (start items)
    \<and> pending_callbacks (start items) = total_callbacks items"
proof -
  from assms obtain e es where ents: "item_entries items = e # es" and e: "e \<noteq> OtherEntry"
    by (auto simp: starts_pending_def split: list.splits)
  define st1 where "st1 = handleEntry e init_state"
  have st: "start items = fold handleEntry es st1"
    by (simp add: start_def fold_handleItem ents st1_def)
  from e have first: "itemsCount st1 < itemsTotal st1" "slack st1 = 0" "resolveCalls st1 = 0"
    "files st1 = []" "filesMap st1 = Map.empty"
    "pending_callbacks st1 = entry_callbacks e" "pending_files st1 = entry_files e"
    by (cases e; simp add: st1_def init_state_def slack_def pending_callbacks_def pending_files_def)+
  note f = fold_handleEntry_busy [OF first(1), of es]
  from f first have sl: "slack (start items) = 0" and bz: "itemsCount (start items) < itemsTotal (start items)"
    by (simp_all add: st)
  then have ne: "pending (start items) \<noteq> []"
    by (auto simp: slack_def)
  have "barrier_inv (all_files items) (start items)"
    unfolding barrier_inv_def using f first ne sl
    by (simp add: st [symmetric]) (simp add: st all_files_def ents)
  moreover have "pending_callbacks (start items) = total_callbacks items"
    using f first by (simp add: st total_callbacks_def ents)
  ultimately show ?thesis by simp
qed

lemma run_idle: "pending st = [] \<Longrightarrow> run sched st = st"
  by (induction sched) (simp_all add: run_def turn_idle)

text \<open>
  Under the invariant the promise settles with the last callback: awaiting it delivers the
  final state once the schedule is long enough for all callbacks, and nothing before.
\<close>

lemma await_settled_inv:
  assumes "barrier_inv all st"
  shows "await_settled sched st =
     (if pending_callbacks st \<le> length sched then Some (run sched st) else None)"
  using assms
proof (induction sched arbitrary: st)
  case Nil
  then show ?case
    using pending_callbacks_0 [of st] by (auto simp: run_def barrier_inv_def)
next
  case (Cons c sched)
  show ?case
  proof (cases "pending st = []")
    case True
    with Cons.prems have "0 < resolveCalls st" by (simp add: barrier_inv_def)
    with True show ?thesis
      using pending_callbacks_0 [of st] by (simp add: run_idle)
  next
    case False
    with Cons.prems have rc: "resolveCalls st = 0" by (simp add: barrier_inv_def)
    from turn_step [OF Cons.prems False, of c]
    have inv': "barrier_inv all (turn c st)"
      and cb: "Suc (pending_callbacks (turn c st)) = pending_callbacks st" by blast+
    have "run (c # sched) st = run sched (turn c st)" by (simp add: run_def)
    with Cons.IH [OF inv'] rc cb show ?thesis by auto
  qed
qed

text \<open>With no entry dropped the promise stays unsettled, whatever the schedule.\<close>

lemma await_settled_idle:
  "pending st = [] \<Longrightarrow> resolveCalls st = 0 \<Longrightarrow> await_settled sched st = None"
  by (induction sched) (simp_all add: turn_idle)

lemma nothing_dropped_never_settles:
  assumes "item_entries items = []"
  shows "getFilesFromItemList sched items = None"
proof -
  have "start items = init_state"
    by (simp add: start_def fold_handleItem assms)
  then show ?thesis
    by (simp add: getFilesFromItemList_def await_settled_idle init_state_def)
qed

text \<open>
  When the first dropped entry is neither file nor directory, \<open>resolve\<close> is called in the
  loop over the items, and the caller that awaits the promise finds no file.
\<close>

lemma handleEntry_keeps:
  "files (handleEntry e st) = files st \<and> filesMap (handleEntry e st) = filesMap st
   \<and> resolveCalls st \<le> resolveCalls (handleEntry e st)"
  by (cases e) (auto simp: onEntryHandled_def resolve_def Let_def)

lemma fold_handleEntry_keeps:
  "files (fold handleEntry es st) = files st \<and> filesMap (fold handleEntry es st) = filesMap st
   \<and> resolveCalls st \<le> resolveCalls (fold handleEntry es st)"
proof (induction es arbitrary: st)
  case Nil
  show ?case by simp
next
  case (Cons e es)
  from handleEntry_keeps [of e st] Cons.IH [of "handleEntry e st"]
  show ?case by (auto intro: le_trans)
qed

lemma other_first_settles_empty:
  assumes "item_entries items = OtherEntry # es"
  shows "getFilesFromItemList sched items = Some ([], Map.empty)"
proof -
  have st: "start items = fold handleEntry es (handleEntry OtherEntry init_state)"
    by (simp add: start_def fold_handleItem assms)
  have "resolveCalls (handleEntry OtherEntry init_state) = 1"
    by (simp add: init_state_def onEntryHandled_def resolve_def)
  with fold_handleEntry_keeps [of es "handleEntry OtherEntry init_state"]
  have rc: "0 < resolveCalls (start items)"
    and fl: "files (start items) = []" and fm: "filesMap (start items) = Map.empty"
    by (simp_all add: st init_state_def onEntryHandled_def resolve_def)
  from rc have "await_settled sched (start items) = Some (start items)"
    by (cases sched) simp_all
  with fl fm show ?thesis by (simp add: getFilesFromItemList_def)
qed

text \<open>
  The barrier as the code intends it. When the first dropped entry is a file or a directory,
  then under every order in which the listing and reading callbacks run: while fewer
  callbacks have run than the dropped tree gives rise to, \<open>itemsCount\<close> is below \<open>itemsTotal\<close>
  and \<open>resolve\<close> has not been called; once all of them have run, \<open>itemsCount\<close> equals
  \<open>itemsTotal\<close>, \<open>resolve\<close> has been called exactly once, and awaiting the promise delivers the
  files of all file entries of the tree, with a key stored for every path but \<open>__proto__\<close>.
\<close>

lemma aggregation_barrier:
  assumes "starts_pending items"
  shows "itemsCount (run sched (start items)) \<le> itemsTotal (run sched (start items))
    \<and> (itemsCount (run sched (start items)) = itemsTotal (run sched (start items)))
        = (total_callbacks items \<le> length sched)
    \<and> resolveCalls (run sched (start items)) = (if length sched < total_callbacks items then 0 else 1)
    \<and> (case getFilesFromItemList sched items of
          None \<Rightarrow> length sched < total_callbacks items
        | Some (fs, fm) \<Rightarrow> total_callbacks items \<le> length sched
            \<and> mset fs = mset (map snd (all_files items))
            \<and> dom fm = fst ` set (stored (all_files items))
            \<and> (\<forall>k f. fm k = Some f \<longrightarrow> (k, f) \<in> set (stored (all_files items)))
            \<and> (distinct (map fst (stored (all_files items))) \<longrightarrow>
                 fm = map_of (stored (all_files items))))"
proof -
  let ?st = "run sched (start items)"
  from start_inv [OF assms] have i0: "barrier_inv (all_files items) (start items)"
    and c0: "pending_callbacks (start items) = total_callbacks items" by simp_all
  from run_inv [OF i0, of sched] c0 have inv: "barrier_inv (all_files items) ?st"
    and cb: "pending_callbacks ?st = total_callbacks items - length sched" by simp_all
  have fin: "pending ?st = [] \<longleftrightarrow> total_callbacks items \<le> length sched"
    using cb pending_callbacks_0 [of ?st] by auto
  from inv have sl: "slack ?st = 0" by (simp add: barrier_inv_def)
  have le: "itemsCount ?st \<le> itemsTotal ?st" using sl by (simp add: slack_def)
  have eq: "(itemsCount ?st = itemsTotal ?st) = (total_callbacks items \<le> length sched)"
    using sl fin by (auto simp: slack_def)
  have rc: "resolveCalls ?st = (if length sched < total_callbacks items then 0 else 1)"
    using inv fin by (auto simp: barrier_inv_def)
  have pf: "pending ?st = [] \<Longrightarrow> pending_files ?st = []" by (simp add: pending_files_def)
  have aw: "getFilesFromItemList sched items =
      (if total_callbacks items \<le> length sched then Some (files ?st, filesMap ?st) else None)"
    by (simp add: getFilesFromItemList_def await_settled_inv [OF i0] c0)
  have se: "(case getFilesFromItemList sched items of
          None \<Rightarrow> length sched < total_callbacks items
        | Some (fs, fm) \<Rightarrow> total_callbacks items \<le> length sched
            \<and> mset fs = mset (map snd (all_files items))
            \<and> dom fm = fst ` set (stored (all_files items))
            \<and> (\<forall>k f. fm k = Some f \<longrightarrow> (k, f) \<in> set (stored (all_files items)))
            \<and> (distinct (map fst (stored (all_files items))) \<longrightarrow>
                 fm = map_of (stored (all_files items))))"
  proof (cases "total_callbacks items \<le> length sched")
    case True
    with fin have emp: "pending ?st = []" by simp
    with inv pf have ms: "mset (files ?st) = mset (map snd (all_files items))"
      and dm: "dom (filesMap ?st) = fst ` set (stored (all_files items))"
      and vl: "\<forall>k f. filesMap ?st k = Some f \<longrightarrow> (k, f) \<in> set (stored (all_files items))"
      by (simp_all add: barrier_inv_def stored_def)
    have "filesMap ?st = map_of (stored (all_files items))"
      if "distinct (map fst (stored (all_files items)))"
      using that dm vl by (rule map_eq_map_of)
    with True ms dm vl show ?thesis by (simp add: aw)
  next
    case False
    then show ?thesis by (simp add: aw)
  qed
  from le eq rc se show ?thesis by blast
qed

text \<open>
  At a directory holding \<open>a.obj\<close> and an entry that is neither file nor directory, and a file
  \<open>b.mtl\<close>: three callbacks; after two of them nothing is resolved, after the third both
  files are delivered.
\<close>

lemma aggregation_barrier_example:
  "starts_pending demo_items \<and> total_callbacks demo_items = 3
   \<and> resolveCalls (run [1, 0] (start demo_items)) = 0
   \<and> getFilesFromItemList [1, 0] demo_items = None
   \<and> resolveCalls (run [1, 0, 0] (start demo_items)) = 1
   \<and> map_option fst (getFilesFromItemList [1, 0, 0] demo_items) = Some [mtl_file, obj_file]"
  using aggregation_barrier [of demo_items "[1, 0, 0]"] aggregation_barrier [of demo_items "[1, 0]"]
  by (simp add: demo_items_def starts_pending_def total_callbacks_def run_def start_def
      init_state_def getFilesFromItemList_def onEntryHandled_def resolve_def turn_def
      js_assign_def)

text \<open>
  So the values that \<open>loadModel\<close> receives are the ones it goes on with: when awaiting
  delivers a state, either no file has been read yet, and \<open>loadModel\<close> returns at once, or no
  callback is left that could change the array and the table.
\<close>

lemma awaited_empty_or_complete:
  assumes "await_settled sched (start items) = Some st"
  shows "files st = [] \<or> pending st = []"
proof (cases "item_entries items")
  case Nil
  then have "start items = init_state" by (simp add: start_def fold_handleItem)
  then have "await_settled sched (start items) = None"
    by (simp add: await_settled_idle init_state_def)
  with assms show ?thesis by simp
next
  case (Cons e es)
  show ?thesis
  proof (cases "e = OtherEntry")
    case True
    have st: "start items = fold handleEntry es (handleEntry OtherEntry init_state)"
      using Cons True by (simp add: start_def fold_handleItem)
    have "resolveCalls (handleEntry OtherEntry init_state) = 1"
      by (simp add: init_state_def onEntryHandled_def resolve_def)
    with fold_handleEntry_keeps [of es "handleEntry OtherEntry init_state"]
    have rc: "0 < resolveCalls (start items)" and fl: "files (start items) = []"
      by (simp_all add: st init_state_def onEntryHandled_def resolve_def)
    from rc have "await_settled sched (start items) = Some (start items)"
      by (cases sched) simp_all
    with assms fl show ?thesis by simp
  next
    case False
    with Cons have "starts_pending items" by (simp add: starts_pending_def)
    from start_inv [OF this] have i0: "barrier_inv (all_files items) (start items)" by simp
    from assms await_settled_inv [OF i0, of sched]
    have le: "pending_callbacks (start items) \<le> length sched" and st: "st = run sched (start items)"
      by (simp_all split: if_splits)
    from run_inv [OF i0, of sched] le have "pending_callbacks (run sched (start items)) = 0"
      by simp
    then show ?thesis by (simp add: st pending_callbacks_0)
  qed
qed


section \<open>The claims\<close>

text \<open>
  C1 fails. When the first dropped entry is neither file nor directory, \<open>resolve\<close> is called
  in the loop over the items, with no file registered and the callback of \<open>a.obj\<close> still
  pending: awaiting the promise delivers an empty list, \<open>loadModel\<close> returns with nothing
  loaded and nothing said, and when the callback of \<open>a.obj\<close> runs, the file is registered
  and \<open>resolve\<close> is called a second time. With nothing dropped no callback is ever pending,
  \<open>resolve\<close> is never called and \<open>loadModel\<close> does not return.
\<close>

theorem barrier_resolves_early:
  "resolveCalls (start other_first_items) = 1
   \<and> files (start other_first_items) = []
   \<and> pending (start other_first_items) = [FileCallback ''/a.obj'' obj_file]
   \<and> map_option fst (getFilesFromItemList [] other_first_items) = Some []
   \<and> loadModel demo_env [0] (DataTransferItemList other_first_items) demo_scene
       = Some (demo_scene, [])
   \<and> files (run [0] (start other_first_items)) = [obj_file]
   \<and> resolveCalls (run [0] (start other_first_items)) = 2
   \<and> pending (start []) = []
   \<and> resolveCalls (run [0, 0] (start [])) = 0
   \<and> getFilesFromItemList [0, 0] [] = None
   \<and> loadModel demo_env [0, 0] (DataTransferItemList []) demo_scene = None"
  by (simp add: other_first_items_def run_def start_def init_state_def getFilesFromItemList_def
      onEntryHandled_def resolve_def turn_def js_assign_def loadModel_def extractFiles_def
      loadModel_files_def)

text \<open>
  C2 fails for the URL modifier over an archive: it does not strip a leading \<open>./\<close>. The
  archive holds \<open>tex.png\<close>; the reference \<open>./tex.png\<close> comes back unchanged, with no object
  URL made, where the reference \<open>tex.png\<close> gets an object URL of the entry's bytes.
\<close>

theorem zip_resolver_no_normalisation:
  "map_of demo_archive ''tex.png'' = Some \<lparr>buffer = ''PNG''\<rparr>
   \<and> zipURLModifier demo_mint demo_archive ''./tex.png'' [] = (''./tex.png'', [])
   \<and> zipURLModifier demo_mint demo_archive ''tex.png'' [] =
       (''blob:'', [(''blob:'', \<lparr>blob_bytes = ''PNG'', blob_type = ''application/octet-stream''\<rparr>)])
   \<and> outerURLModifier demo_mint [''tex.png'' \<mapsto> \<lparr>name = ''tex.png'', bytes = ''PNG'', mime = []\<rparr>]
         ''./tex.png'' [] =
       (''blob:'', [(''blob:'', \<lparr>blob_bytes = ''PNG'', blob_type = []\<rparr>)])"
  by (simp add: demo_archive_def zipURLModifier_def outerURLModifier_def strip_leading_def
      file_blob_def createObjectURL_def demo_mint_def Let_def object_prototype_names_def)

text \<open>
  C3 (as amended). Whatever was dropped, a run of \<open>loadModel\<close> that ends with a failure
  notification leaves the scene as it was. When the list of files that \<open>loadModel\<close> extracts
  from the drop is not empty and none of them has a supported extension, the notification
  is \<open>NoSupportedFile\<close>; when loading the primary file fails, the notification carries that
  error; when the list is empty, \<open>loadModel\<close> returns with no notification, the scene as it
  was.
\<close>

theorem failure_leaves_scene:
  assumes "extractFiles sched droppedItems = Some (fs, fm)"
  shows "(fs \<noteq> [] \<and> primaryFile fs = None \<longrightarrow>
            loadModel env sched droppedItems sc = Some (sc, [NoSupportedFile supportedExtensions]))
       \<and> (primaryFile fs = Some pf \<and> fst (loadFile env pf (outerManager env fm)) = Inl e \<longrightarrow>
            loadModel env sched droppedItems sc = Some (sc, [LoadFailed e]))
       \<and> (fs = [] \<longrightarrow> loadModel env sched droppedItems sc = Some (sc, []))
       \<and> (loadModel env sched droppedItems sc = Some (sc', al) \<and> al \<noteq> [] \<longrightarrow> sc' = sc)"
proof (intro conjI impI)
  assume "fs \<noteq> [] \<and> primaryFile fs = None"
  then show "loadModel env sched droppedItems sc = Some (sc, [NoSupportedFile supportedExtensions])"
    by (simp add: loadModel_def assms loadModel_files_def)
next
  assume a: "primaryFile fs = Some pf \<and> fst (loadFile env pf (outerManager env fm)) = Inl e"
  then have "fs \<noteq> []" by (simp add: primaryFile_Some_nonempty)
  with a show "loadModel env sched droppedItems sc = Some (sc, [LoadFailed e])"
    by (simp add: loadModel_def assms loadModel_files_def)
next
  assume "fs = []"
  then show "loadModel env sched droppedItems sc = Some (sc, [])"
    by (simp add: loadModel_def assms loadModel_files_def)
next
  assume "loadModel env sched droppedItems sc = Some (sc', al) \<and> al \<noteq> []"
  then have "loadModel_files env fs fm sc = (sc', al)" and "al \<noteq> []"
    by (simp_all add: loadModel_def assms)
  then show "sc' = sc" by (rule loadModel_files_unchanged)
qed

text \<open>
  C3, at the single dropped file \<open>notes.txt\<close>, at \<open>notes.txt\<close> with a \<open>glb\<close> file that the
  decoder rejects, and at no file.
\<close>

theorem failure_leaves_scene_witness:
  "extractFiles [] (FileList [txt_file]) = Some ([txt_file], createFilesMap [txt_file])
   \<and> [txt_file] \<noteq> [] \<and> primaryFile [txt_file] = None
   \<and> loadModel demo_env [] (FileList [txt_file]) demo_scene
       = Some (demo_scene, [NoSupportedFile supportedExtensions])
   \<and> extractFiles [] (FileList [txt_file, glb_file])
       = Some ([txt_file, glb_file], createFilesMap [txt_file, glb_file])
   \<and> primaryFile [txt_file, glb_file] = Some glb_file
   \<and> fst (loadFile demo_env glb_file (outerManager demo_env (createFilesMap [txt_file, glb_file])))
       = Inl (DecoderError ''Unexpected token in JSON'')
   \<and> loadModel demo_env [] (FileList [txt_file, glb_file]) demo_scene
       = Some (demo_scene, [LoadFailed (DecoderError ''Unexpected token in JSON'')])
   \<and> extractFiles [] (FileList []) = Some ([], createFilesMap [])
   \<and> loadModel demo_env [] (FileList []) demo_scene = Some (demo_scene, [])"
proof -
  have e0: "extractFiles [] (FileList []) = Some ([], createFilesMap [])"
    by (simp add: extractFiles_def)
  from failure_leaves_scene [OF e0, where env = demo_env and sc = demo_scene]
  have r0: "loadModel demo_env [] (FileList []) demo_scene = Some (demo_scene, [])"
    by simp
  have x: "extension ''notes.txt'' = ''txt''" "extension ''broken.glb'' = ''glb''"
    by (simp_all add: ext_eval)
  have e1: "extractFiles [] (FileList [txt_file]) = Some ([txt_file], createFilesMap [txt_file])"
    by (simp add: extractFiles_def)
  have p1: "primaryFile [txt_file] = None"
    by (simp add: primaryFile_def txt_file_def x supportedExtensions_def)
  have e2: "extractFiles [] (FileList [txt_file, glb_file])
      = Some ([txt_file, glb_file], createFilesMap [txt_file, glb_file])"
    by (simp add: extractFiles_def)
  have p2: "primaryFile [txt_file, glb_file] = Some glb_file"
    by (simp add: primaryFile_def txt_file_def glb_file_def x supportedExtensions_def)
  have l2: "fst (loadFile demo_env glb_file (outerManager demo_env (createFilesMap [txt_file, glb_file])))
      = Inl (DecoderError ''Unexpected token in JSON'')"
    by (subst loadFile.simps) (simp add: demo_env_def glb_file_def x readFile_def loadGLTF_def)
  from failure_leaves_scene [OF e1, where env = demo_env and sc = demo_scene] p1
  have r1: "loadModel demo_env [] (FileList [txt_file]) demo_scene
      = Some (demo_scene, [NoSupportedFile supportedExtensions])"
    by simp
  from failure_leaves_scene [OF e2, where env = demo_env and sc = demo_scene and pf = glb_file
      and e = "DecoderError ''Unexpected token in JSON''"]
    p2 l2
  have r2: "loadModel demo_env [] (FileList [txt_file, glb_file]) demo_scene
      = Some (demo_scene, [LoadFailed (DecoderError ''Unexpected token in JSON'')])"
    by simp
  from e1 p1 r1 e2 p2 l2 r2 e0 r0 show ?thesis by simp
qed

text \<open>
  C3 as stated fails at the empty file list: no dropped file has a supported extension,
  and \<open>loadModel\<close> returns with no notification at all.
\<close>

theorem no_files_no_notification_counterexample:
  "primaryFile [] = None \<and> loadModel demo_env [] (FileList []) demo_scene = Some (demo_scene, [])"
  by (simp add: primaryFile_def loadModel_def extractFiles_def loadModel_files_def)

text \<open>
  C4 (as amended). A PLY geometry is wrapped as a mesh when its index buffer is not null and
  as a point collection when it is null, and in both cases vertex colours are enabled exactly
  when the geometry has a \<open>color\<close> attribute. An STL geometry is always wrapped as a mesh
  with the default material, whose vertex colours are off.
\<close>

theorem geometry_wrapping:
  assumes rd: "\<not> readFails env f"
  shows "(extension (name f) = ''ply'' \<and> parsePLY env (ArrayBuffer (bytes f)) = Inr g \<longrightarrow>
            loadFile env f m =
              (Inr ((if index g \<noteq> None
                     then Mesh (computeVertexNormals env g)
                            (MeshStandardMaterial (hasAttribute g ''color'') DoubleSide)
                     else Points (computeVertexNormals env g)
                            (PointsMaterial (1 / 100) (hasAttribute g ''color'')))
                    \<lparr>obj_name := name f\<rparr>), []))
       \<and> (extension (name f) = ''stl'' \<and> parseSTL env (ArrayBuffer (bytes f)) = Inr g \<longrightarrow>
            loadFile env f m =
              (Inr ((Mesh g (MeshStandardMaterial False FrontSide))\<lparr>obj_name := name f\<rparr>), []))"
proof (intro conjI impI)
  assume a: "extension (name f) = ''ply'' \<and> parsePLY env (ArrayBuffer (bytes f)) = Inr g"
  then show "loadFile env f m =
      (Inr ((if index g \<noteq> None
             then Mesh (computeVertexNormals env g)
                    (MeshStandardMaterial (hasAttribute g ''color'') DoubleSide)
             else Points (computeVertexNormals env g)
                    (PointsMaterial (1 / 100) (hasAttribute g ''color'')))
            \<lparr>obj_name := name f\<rparr>), [])"
    by (subst loadFile.simps)
       (simp add: rd readFile_def loadPLY_def Let_def index_computeVertexNormals
          color_computeVertexNormals)
next
  assume a: "extension (name f) = ''stl'' \<and> parseSTL env (ArrayBuffer (bytes f)) = Inr g"
  then show "loadFile env f m =
      (Inr ((Mesh g (MeshStandardMaterial False FrontSide))\<lparr>obj_name := name f\<rparr>), [])"
    by (subst loadFile.simps) (simp add: rd readFile_def loadSTL_def Let_def)
qed

text \<open>C4, at a PLY file whose geometry has an index buffer and colours.\<close>

theorem geometry_wrapping_witness:
  "\<not> readFails demo_env ply_file \<and> extension (name ply_file) = ''ply''
   \<and> parsePLY demo_env (ArrayBuffer (bytes ply_file)) = Inr ply_mesh_geometry
   \<and> index ply_mesh_geometry \<noteq> None \<and> hasAttribute ply_mesh_geometry ''color''
   \<and> loadFile demo_env ply_file demo_manager =
       (Inr ((Mesh (computeVertexNormals demo_env ply_mesh_geometry)
                (MeshStandardMaterial True DoubleSide))\<lparr>obj_name := ''bunny.ply''\<rparr>), [])"
proof -
  have r: "\<not> readFails demo_env ply_file" by (simp add: demo_env_def)
  have e: "extension (name ply_file) = ''ply''" by (simp add: ply_file_def ext_eval)
  have p: "parsePLY demo_env (ArrayBuffer (bytes ply_file)) = Inr ply_mesh_geometry"
    by (simp add: demo_env_def)
  have g: "index ply_mesh_geometry \<noteq> None" "hasAttribute ply_mesh_geometry ''color''"
    by (simp_all add: ply_mesh_geometry_def hasAttribute_def)
  from geometry_wrapping [OF r, where g = ply_mesh_geometry and m = demo_manager] r e p g show ?thesis
    by (simp add: ply_file_def)
qed

text \<open>
  C4 as stated fails for STL: a geometry with a null index buffer and a \<open>color\<close> attribute is
  wrapped as a mesh, not as a point collection, and its vertex colours are off.
\<close>

theorem stl_always_mesh_counterexample:
  "index stl_geometry = None \<and> hasAttribute stl_geometry ''color''
   \<and> parseSTL demo_env (ArrayBuffer (bytes stl_file)) = Inr stl_geometry
   \<and> loadFile demo_env stl_file demo_manager =
       (Inr ((Mesh stl_geometry (MeshStandardMaterial False FrontSide))\<lparr>obj_name := ''Part.STL''\<rparr>), [])"
  by (subst loadFile.simps)
     (simp add: stl_geometry_def hasAttribute_def demo_env_def stl_file_def ext_eval readFile_def
        loadSTL_def)

text \<open>
  C5. Loading a readable \<open>zip\<close> file that \<open>unzipSync\<close> expands: the entries are scanned in
  their order, and the first whose extension is one of \<open>gltf\<close>, \<open>glb\<close>, \<open>fbx\<close>, \<open>obj\<close>, \<open>stl\<close>,
  \<open>ply\<close> is read as a file of that path and data and handed to the decoder of its
  extension, with the manager over the archive, whatever the outer manager is; the result is
  that decoder's. With no such entry the load fails with \<open>NoModelInZip\<close>. The manager over the
  archive resolves a reference that is the path of an entry to an object URL of that entry's
  bytes, and returns any other reference unchanged, unless it names a property that the
  archive object inherits.
\<close>

theorem zip_expansion:
  assumes ext: "extension (name f) = ''zip''"
    and rd: "\<not> readFails env f"
    and uz: "unzipSync env (bytes f) = Inr archive"
  shows "loadFile env f m =
     (case filter (\<lambda>(path, fileData). extension path \<in> {''gltf'', ''glb'', ''fbx'', ''obj'', ''stl'', ''ply''}) archive of
        [] \<Rightarrow> (Inl NoModelInZip, [])
      | (path, fileData) # _ \<Rightarrow>
          (let innerFile = \<lparr>name = path, bytes = buffer fileData, mime = []\<rparr>;
               inner = zipManager env archive;
               asText = Text (buffer fileData);
               asBuffer = ArrayBuffer (buffer fileData)
           in if readFails env innerFile then (Inl ReaderError, [])
              else if extension path = ''gltf'' then
                (if buffer fileData = [] then (Inl FileReadFailed, [])
                 else loadGLTF env inner path asText)
              else if extension path = ''obj'' then
                (if buffer fileData = [] then (Inl FileReadFailed, [])
                 else loadOBJ env inner path asText)
              else if extension path = ''glb'' then loadGLTF env inner path asBuffer
              else if extension path = ''fbx'' then loadFBX env inner path asBuffer
              else if extension path = ''ply'' then loadPLY env path asBuffer
              else loadSTL env path asBuffer))
   \<and> (\<forall>url store d. map_of archive url = Some d \<longrightarrow>
         (\<exists>u store'. urlModifier (zipManager env archive) url store = (u, store')
            \<and> read_url store' u
                = Some \<lparr>blob_bytes = buffer d, blob_type = ''application/octet-stream''\<rparr>))
   \<and> (\<forall>url store. map_of archive url = None \<and> url \<notin> set object_prototype_names \<longrightarrow>
         urlModifier (zipManager env archive) url store = (url, store))"
proof (intro conjI allI impI)
  have sel: "find (\<lambda>(path, fileData). extension path \<in> set zipSupportedExtensions) archive =
      (case filter (\<lambda>(path, fileData). extension path \<in> {''gltf'', ''glb'', ''fbx'', ''obj'', ''stl'', ''ply''}) archive of
         [] \<Rightarrow> None | e # _ \<Rightarrow> Some e)"
    by (simp add: find_filter_hd zipSupportedExtensions_def)
  have outer: "loadFile env f m =
     (case find (\<lambda>(path, fileData). extension path \<in> set zipSupportedExtensions) archive of
        Some (path, fileData) \<Rightarrow>
          loadFile env \<lparr>name = path, bytes = buffer fileData, mime = []\<rparr> (zipManager env archive)
      | None \<Rightarrow> (Inl NoModelInZip, []))"
    by (subst loadFile.simps) (simp add: ext rd uz readFile_def Let_def)
  show "loadFile env f m =
     (case filter (\<lambda>(path, fileData). extension path \<in> {''gltf'', ''glb'', ''fbx'', ''obj'', ''stl'', ''ply''}) archive of
        [] \<Rightarrow> (Inl NoModelInZip, [])
      | (path, fileData) # _ \<Rightarrow>
          (let innerFile = \<lparr>name = path, bytes = buffer fileData, mime = []\<rparr>;
               inner = zipManager env archive;
               asText = Text (buffer fileData);
               asBuffer = ArrayBuffer (buffer fileData)
           in if readFails env innerFile then (Inl ReaderError, [])
              else if extension path = ''gltf'' then
                (if buffer fileData = [] then (Inl FileReadFailed, [])
                 else loadGLTF env inner path asText)
              else if extension path = ''obj'' then
                (if buffer fileData = [] then (Inl FileReadFailed, [])
                 else loadOBJ env inner path asText)
              else if extension path = ''glb'' then loadGLTF env inner path asBuffer
              else if extension path = ''fbx'' then loadFBX env inner path asBuffer
              else if extension path = ''ply'' then loadPLY env path asBuffer
              else loadSTL env path asBuffer))"
  proof (cases "filter (\<lambda>(path, fileData). extension path \<in> {''gltf'', ''glb'', ''fbx'', ''obj'', ''stl'', ''ply''}) archive")
    case Nil
    then show ?thesis by (simp only: outer sel list.case option.case)
  next
    case (Cons e es)
    obtain path fileData where e: "e = (path, fileData)" by (cases e)
    from Cons have sup: "extension path \<in> {''gltf'', ''glb'', ''fbx'', ''obj'', ''stl'', ''ply''}"
      by (auto simp: filter_eq_Cons_iff e)
    have "loadFile env f m =
        loadFile env \<lparr>name = path, bytes = buffer fileData, mime = []\<rparr> (zipManager env archive)"
      by (simp only: outer sel Cons e list.case option.case prod.case)
    also have "\<dots> =
          (let innerFile = \<lparr>name = path, bytes = buffer fileData, mime = []\<rparr>;
               inner = zipManager env archive;
               asText = Text (buffer fileData);
               asBuffer = ArrayBuffer (buffer fileData)
           in if readFails env innerFile then (Inl ReaderError, [])
              else if extension path = ''gltf'' then
                (if buffer fileData = [] then (Inl FileReadFailed, [])
                 else loadGLTF env inner path asText)
              else if extension path = ''obj'' then
                (if buffer fileData = [] then (Inl FileReadFailed, [])
                 else loadOBJ env inner path asText)
              else if extension path = ''glb'' then loadGLTF env inner path asBuffer
              else if extension path = ''fbx'' then loadFBX env inner path asBuffer
              else if extension path = ''ply'' then loadPLY env path asBuffer
              else loadSTL env path asBuffer)"
      using sup by (subst loadFile.simps) (auto simp: readFile_def Let_def)
    finally show ?thesis
      by (simp only: Cons e list.case prod.case)
  qed
next
  fix url store d
  assume "map_of archive url = Some d"
  then show "\<exists>u store'. urlModifier (zipManager env archive) url store = (u, store')
      \<and> read_url store' u = Some \<lparr>blob_bytes = buffer d, blob_type = ''application/octet-stream''\<rparr>"
    by (simp add: zipManager_def zipURLModifier_hit)
next
  fix url store
  assume "map_of archive url = None \<and> url \<notin> set object_prototype_names"
  then show "urlModifier (zipManager env archive) url store = (url, store)"
    by (simp add: zipManager_def zipURLModifier_miss)
qed

text \<open>
  C5, at \<open>bundle.zip\<close> holding \<open>readme.txt\<close>, \<open>mesh/part.stl\<close> and \<open>tex.png\<close>: the entry
  \<open>mesh/part.stl\<close> goes to the STL decoder, and the result is the mesh of its geometry, named
  after the entry; the reference \<open>tex.png\<close> resolves to the bytes of that entry, and the
  reference \<open>model.mtl\<close>, which the archive does not hold, comes back.
\<close>

theorem zip_expansion_witness:
  "extension (name zip_file) = ''zip'' \<and> \<not> readFails demo_env zip_file
   \<and> unzipSync demo_env (bytes zip_file) = Inr demo_archive
   \<and> loadFile demo_env zip_file demo_manager =
       (Inr ((Mesh stl_geometry (MeshStandardMaterial False FrontSide))\<lparr>obj_name := ''mesh/part.stl''\<rparr>), [])
   \<and> map_of demo_archive ''tex.png'' = Some \<lparr>buffer = ''PNG''\<rparr>
   \<and> read_url (snd (urlModifier (zipManager demo_env demo_archive) ''tex.png'' []))
         (fst (urlModifier (zipManager demo_env demo_archive) ''tex.png'' []))
       = Some \<lparr>blob_bytes = ''PNG'', blob_type = ''application/octet-stream''\<rparr>
   \<and> map_of demo_archive ''model.mtl'' = None
   \<and> ''model.mtl'' \<notin> set object_prototype_names
   \<and> urlModifier (zipManager demo_env demo_archive) ''model.mtl'' [] = (''model.mtl'', [])"
proof -
  have e: "extension (name zip_file) = ''zip''"
    by (simp add: zip_file_def ext_eval)
  have r: "\<not> readFails demo_env zip_file" by (simp add: demo_env_def)
  have u: "unzipSync demo_env (bytes zip_file) = Inr demo_archive" by (simp add: demo_env_def)
  have x: "extension ''readme.txt'' = ''txt''" "extension ''mesh/part.stl'' = ''stl''"
    by (simp_all add: ext_eval)
  have h: "map_of demo_archive ''tex.png'' = Some \<lparr>buffer = ''PNG''\<rparr>"
    by (simp add: demo_archive_def)
  have n: "map_of demo_archive ''model.mtl'' = None"
    "''model.mtl'' \<notin> set object_prototype_names"
    by (simp_all add: demo_archive_def object_prototype_names_def)
  note z = zip_expansion [OF e r u, where m = demo_manager]
  from z have l: "loadFile demo_env zip_file demo_manager =
       (Inr ((Mesh stl_geometry (MeshStandardMaterial False FrontSide))\<lparr>obj_name := ''mesh/part.stl''\<rparr>), [])"
    by (simp add: demo_archive_def x Let_def) (simp add: demo_env_def loadSTL_def)
  from z h obtain u' store' where
    "urlModifier (zipManager demo_env demo_archive) ''tex.png'' [] = (u', store')"
    "read_url store' u' = Some \<lparr>blob_bytes = buffer \<lparr>buffer = ''PNG''\<rparr>, blob_type = ''application/octet-stream''\<rparr>"
    by blast
  then have a: "read_url (snd (urlModifier (zipManager demo_env demo_archive) ''tex.png'' []))
         (fst (urlModifier (zipManager demo_env demo_archive) ''tex.png'' []))
       = Some \<lparr>blob_bytes = ''PNG'', blob_type = ''application/octet-stream''\<rparr>"
    by simp
  from z n have b: "urlModifier (zipManager demo_env demo_archive) ''model.mtl'' [] = (''model.mtl'', [])"
    by blast
  from e r u l h a n b show ?thesis by simp
qed

text \<open>
  C6 fails when the decoder rejects: for a \<open>glb\<close> file that the GLTF decoder rejects, the two
  auxiliary decoders are created and the load ends with the decoder's error; neither is
  disposed of.
\<close>

theorem gltf_failure_leaks_decoders:
  "loadFile demo_env glb_file demo_manager =
     (Inl (DecoderError ''Unexpected token in JSON''), [Created DRACOLoader, Created KTX2Loader])"
  by (subst loadFile.simps)
     (simp add: demo_env_def glb_file_def ext_eval readFile_def loadGLTF_def)

text \<open>
  C7. The primary file is the first file of the list, in list order, whose final
  dot-segment in lower case is one of \<open>stl\<close>, \<open>obj\<close>, \<open>ply\<close>, \<open>gltf\<close>, \<open>glb\<close>, \<open>fbx\<close>, \<open>zip\<close>; and for
  a non-empty list of dropped files \<open>loadModel\<close> loads that file and no other.
\<close>

theorem primaryFile_first_supported:
  "primaryFile fs =
     (case filter (\<lambda>f. toLowerCase (final_dot_segment (name f))
                      \<in> {''stl'', ''obj'', ''ply'', ''gltf'', ''glb'', ''fbx'', ''zip''}) fs of
        [] \<Rightarrow> None
      | f # _ \<Rightarrow> Some f)
   \<and> (extractFiles sched droppedItems = Some (fs, fm) \<and> fs \<noteq> [] \<longrightarrow>
        loadModel env sched droppedItems sc =
          Some (case primaryFile fs of
                  None \<Rightarrow> (sc, [NoSupportedFile supportedExtensions])
                | Some pf \<Rightarrow>
                    (case fst (loadFile env pf (outerManager env fm)) of
                       Inl e \<Rightarrow> (sc, [LoadFailed e])
                     | Inr object \<Rightarrow> (scene_add (normalizeModel env object) (clearScene sc), []))))"
  by (auto simp: primaryFile_def find_filter_hd extension_final_segment supportedExtensions_def
      loadModel_def loadModel_files_def split: option.splits sum.splits)

text \<open>
  C7, at the files \<open>notes.txt\<close>, \<open>Part.STL\<close>, \<open>bunny.ply\<close>: the primary file is \<open>Part.STL\<close>,
  its extension read without regard to case.
\<close>

theorem primaryFile_first_supported_witness:
  "extractFiles [] (FileList [txt_file, stl_file, ply_file])
     = Some ([txt_file, stl_file, ply_file], createFilesMap [txt_file, stl_file, ply_file])
   \<and> [txt_file, stl_file, ply_file] \<noteq> []
   \<and> primaryFile [txt_file, stl_file, ply_file] = Some stl_file
   \<and> loadModel demo_env [] (FileList [txt_file, stl_file, ply_file]) demo_scene =
       Some (case fst (loadFile demo_env stl_file
                    (outerManager demo_env (createFilesMap [txt_file, stl_file, ply_file]))) of
               Inl e \<Rightarrow> (demo_scene, [LoadFailed e])
             | Inr object \<Rightarrow> (scene_add (normalizeModel demo_env object) (clearScene demo_scene), []))"
proof -
  have e: "extractFiles [] (FileList [txt_file, stl_file, ply_file])
     = Some ([txt_file, stl_file, ply_file], createFilesMap [txt_file, stl_file, ply_file])"
    by (simp add: extractFiles_def)
  have s: "final_dot_segment ''notes.txt'' = ''txt''" "final_dot_segment ''Part.STL'' = ''STL''"
    by (simp_all add: final_dot_segment_def)
  have l: "toLowerCase ''txt'' = ''txt''" "toLowerCase ''STL'' = ''stl''"
    by (simp_all add: toLowerCase_def toLowerCase_char_def)
  from primaryFile_first_supported
    [where fs = "[txt_file, stl_file, ply_file]" and sched = "[]"
      and droppedItems = "FileList [txt_file, stl_file, ply_file]"
      and fm = "createFilesMap [txt_file, stl_file, ply_file]" and env = demo_env and sc = demo_scene]
  have p: "primaryFile [txt_file, stl_file, ply_file] = Some stl_file"
    and m: "loadModel demo_env [] (FileList [txt_file, stl_file, ply_file]) demo_scene =
       Some (case primaryFile [txt_file, stl_file, ply_file] of
               None \<Rightarrow> (demo_scene, [NoSupportedFile supportedExtensions])
             | Some pf \<Rightarrow>
                 (case fst (loadFile demo_env pf
                        (outerManager demo_env (createFilesMap [txt_file, stl_file, ply_file]))) of
                    Inl e \<Rightarrow> (demo_scene, [LoadFailed e])
                  | Inr object \<Rightarrow> (scene_add (normalizeModel demo_env object) (clearScene demo_scene), [])))"
    using e by (simp_all add: txt_file_def stl_file_def s l)
  from e p m show ?thesis by simp
qed

text \<open>
  C8 fails for a coordinate-axes helper. The scene holds a light, the axes helper of
  three.js and an old model; \<open>Part.STL\<close> is dropped and loads. Afterwards the scene holds
  the light and the normalised new mesh: the axes helper has been removed with the old
  model, since it has no property \<open>isAxesHelper\<close> for \<open>clearScene\<close> to find.
\<close>

theorem axes_helper_removed:
  "children axes_scene = [demo_light, AxesHelper, old_model]
   \<and> obj_type AxesHelper = ''AxesHelper''
   \<and> loadModel demo_env [] (FileList [stl_file]) axes_scene =
       Some (\<lparr>children = [demo_light,
           (Mesh stl_geometry (MeshStandardMaterial False FrontSide))
             \<lparr>obj_name := ''Part.STL'',
              position := (Finite (- 1), Finite (- 2), Finite (- 3)),
              scale := (Finite (5 / 2), Finite (5 / 2), Finite (5 / 2))\<rparr>]\<rparr>, [])"
proof -
  have x: "extension ''Part.STL'' = ''stl''" by (simp add: ext_eval)
  have l: "fst (loadFile demo_env stl_file (outerManager demo_env (createFilesMap [stl_file])))
       = Inr ((Mesh stl_geometry (MeshStandardMaterial False FrontSide))\<lparr>obj_name := ''Part.STL''\<rparr>)"
    by (subst loadFile.simps) (simp add: demo_env_def stl_file_def x readFile_def loadSTL_def)
  have p: "primaryFile [stl_file] = Some stl_file"
    by (simp add: primaryFile_def stl_file_def x supportedExtensions_def)
  have c: "clearScene axes_scene = \<lparr>children = [demo_light]\<rparr>"
    by (simp add: clearScene_def axes_scene_def scene_remove_def demo_light_def old_model_def
        AxesHelper_def new_object_def)
  have n: "normalizeModel demo_env
        ((Mesh stl_geometry (MeshStandardMaterial False FrontSide))\<lparr>obj_name := ''Part.STL''\<rparr>)
      = (Mesh stl_geometry (MeshStandardMaterial False FrontSide))
             \<lparr>obj_name := ''Part.STL'',
              position := (Finite (- 1), Finite (- 2), Finite (- 3)),
              scale := (Finite (5 / 2), Finite (5 / 2), Finite (5 / 2))\<rparr>"
    by (simp add: normalizeModel_def demo_env_def Mesh_def new_object_def vec_sub_def Let_def)
  show ?thesis
    by (simp add: loadModel_def extractFiles_def loadModel_files_def p l c n scene_add_def)
       (simp add: axes_scene_def AxesHelper_def new_object_def)
qed

text \<open>
  C9 fails for a file named \<open>__proto__\<close>: the assignment \<open>map[file.name] = file\<close> stores no key
  for it. For the files \<open>a.obj\<close> and \<open>__proto__\<close> the table has the one key \<open>a.obj\<close>, and for
  the file \<open>__proto__\<close> alone it has none.
\<close>

theorem proto_file_stores_no_key:
  "name proto_file = ''__proto__'' \<and> name obj_file = ''a.obj''
   \<and> extractFiles [] (FileList [obj_file, proto_file])
       = Some ([obj_file, proto_file], createFilesMap [obj_file, proto_file])
   \<and> dom (createFilesMap [obj_file, proto_file]) = {''a.obj''}
   \<and> dom (createFilesMap [proto_file]) = {}"
  by (simp add: proto_file_def obj_file_def extractFiles_def createFilesMap_def js_assign_def)

text \<open>
  C10. With an empty file list \<open>loadModel\<close> returns at once: the scene is unchanged and no
  notification is shown.
\<close>

theorem empty_list_returns_silently:
  "loadModel env sched (FileList []) sc = Some (sc, [])"
  by (simp add: loadModel_def extractFiles_def loadModel_files_def)


end
